theory Spec2Isabelle
  imports Main "HOL-Library.Sublist" "HOL-Library.AList"
begin

section \<open>OctoShare: the mutual-TLS file server of \<^verbatim>\<open>src/server.js\<close>\<close>

text \<open>
  The server registers four routes on an Express application: \<^verbatim>\<open>POST /upload\<close>,
  \<^verbatim>\<open>GET /files\<close>, \<^verbatim>\<open>GET /download/:filename\<close> and \<^verbatim>\<open>DELETE /files/:filename\<close>.
  Each handler is embedded as a function from the request and the state of the world
  (file system, console, record of the file-system calls made) to the response and the
  new world. JavaScript strings are \<^typ>\<open>string\<close>; \<^verbatim>\<open>undefined\<close> and \<^verbatim>\<open>null\<close> are
  \<^term>\<open>None\<close>. Paths are POSIX paths.
\<close>

subsection \<open>JavaScript strings\<close>

text \<open>
  \<^verbatim>\<open>s.includes(sub)\<close>: \<^verbatim>\<open>sub\<close> occurs in \<^verbatim>\<open>s\<close> as a contiguous run. (The name
  \<^verbatim>\<open>includes\<close> is reserved in Isabelle.)
\<close>

fun str_includes :: "string \<Rightarrow> string \<Rightarrow> bool" where
  "str_includes [] sub = (sub = [])"
| "str_includes (c # cs) sub = (prefix sub (c # cs) \<or> str_includes cs sub)"

text \<open>
  A number inside a template literal is printed in decimal. \<^verbatim>\<open>Date.now()\<close> is an integer
  number of milliseconds whose magnitude stays far below \<open>10\<^sup>2\<^sup>1\<close>, so no exponent is
  printed; a negative value is printed with a leading minus sign.
\<close>

definition digit_char :: "nat \<Rightarrow> char" where
  "digit_char d = ''0123456789'' ! d"

fun show_nat :: "nat \<Rightarrow> string" where
  "show_nat n = (if n < 10 then [digit_char n] else show_nat (n div 10) @ [digit_char (n mod 10)])"

declare show_nat.simps [simp del]

definition show_int :: "int \<Rightarrow> string" where
  "show_int i = (if i < 0 then CHR ''-'' # show_nat (nat (- i)) else show_nat (nat i))"

subsection \<open>Node's \<^verbatim>\<open>path.join\<close>\<close>

text \<open>
  \<^verbatim>\<open>path.join\<close> belongs to Node's standard library. It joins its non-empty arguments
  with \<^verbatim>\<open>/\<close> and normalises the result: empty segments and \<^verbatim>\<open>.\<close> are dropped, \<^verbatim>\<open>..\<close>
  removes the segment before it (or is kept at the front of a relative path), a trailing
  separator is preserved. \<open>split_sep\<close> cuts a path at every separator, \<open>norm_step\<close>
  processes one segment against the stack of segments kept so far (top first).
\<close>

fun split_sep :: "string \<Rightarrow> string list" where
  "split_sep [] = [[]]"
| "split_sep (c # cs) =
     (if c = CHR ''/'' then [] # split_sep cs
      else (case split_sep cs of [] \<Rightarrow> [[c]] | s # ss \<Rightarrow> (c # s) # ss))"

fun join_sep :: "string list \<Rightarrow> string" where
  "join_sep [] = []"
| "join_sep [s] = s"
| "join_sep (s # t # ss) = s @ ''/'' @ join_sep (t # ss)"

definition norm_step :: "bool \<Rightarrow> string list \<Rightarrow> string \<Rightarrow> string list" where
  "norm_step allowAboveRoot res seg =
     (if seg = [] \<or> seg = ''.'' then res
      else if seg = ''..'' then
        (case res of
           [] \<Rightarrow> if allowAboveRoot then [''..''] else []
         | l # rest \<Rightarrow>
             if l \<noteq> ''..'' then rest
             else if allowAboveRoot then ''..'' # res else res)
      else seg # res)"

definition normalizeString :: "string \<Rightarrow> bool \<Rightarrow> string" where
  "normalizeString path allowAboveRoot =
     join_sep (rev (foldl (norm_step allowAboveRoot) [] (split_sep path)))"

definition normalize :: "string \<Rightarrow> string" where
  "normalize path =
     (if path = [] then ''.''
      else
        let isAbsolute = (hd path = CHR ''/'');
            trailingSeparator = (last path = CHR ''/'');
            p = normalizeString path (\<not> isAbsolute)
        in if p = [] then
             (if isAbsolute then ''/'' else if trailingSeparator then ''./'' else ''.'')
           else (if isAbsolute then ''/'' else []) @ p
                @ (if trailingSeparator then ''/'' else []))"

definition path_join :: "string list \<Rightarrow> string" where
  "path_join args =
     (let parts = filter (\<lambda>arg. arg \<noteq> []) args
      in if parts = [] then ''.'' else normalize (join_sep parts))"

subsection \<open>Configuration (lines 14-15 and 47-50)\<close>

text \<open>
  \<^verbatim>\<open>const UPLOAD_PATH = path.join(__dirname, '..', '..', 'uploads');\<close>
  The value of \<^verbatim>\<open>__dirname\<close> depends on where the server is installed, so it is an
  argument.
\<close>

definition UPLOAD_PATH :: "string \<Rightarrow> string" where
  "UPLOAD_PATH dirname = path_join [dirname, ''..'', ''..'', ''uploads'']"

text \<open>
  \<^verbatim>\<open>filename: (req, file, cb) => { cb(null, `${Date.now()}-${file.originalname}`); }\<close>
  with the value of \<^verbatim>\<open>Date.now()\<close> as the first argument.
\<close>

definition storage_filename :: "int \<Rightarrow> string \<Rightarrow> string" where
  "storage_filename now originalname = show_int now @ ''-'' @ originalname"

subsection \<open>Requests, responses and the world\<close>

text \<open>
  \<^verbatim>\<open>req.socket.getPeerCertificate()\<close> yields \<^verbatim>\<open>null\<close>, an object without a subject (the empty
  object of a peer that presented no certificate), or an object whose subject may or may
  not carry a \<^verbatim>\<open>CN\<close>. A request also carries the route parameter \<^verbatim>\<open>:filename\<close> and, for an
  upload, the multipart field \<^verbatim>\<open>secureFile\<close> as the file name the client sent and the
  bytes.
\<close>

record cert_subject =
  CN :: "string option"

record peer_certificate =
  subject :: "cert_subject option"

record request =
  peerCertificate :: "peer_certificate option"
  params_filename :: string
  secureFile :: "(string \<times> string) option"

record uploaded_file =
  originalname :: string
  filename :: string

text \<open>
  The file system maps a path to a regular file with its contents or to a directory.
  Every call into the file system is recorded, in order, next to the console output.
\<close>

datatype node = File string | Dir

datatype fs_call =
  WriteFile string | ReaddirSync string | ExistsSync string | SendFile string | UnlinkSync string

fun call_path :: "fs_call \<Rightarrow> string" where
  "call_path (WriteFile p) = p"
| "call_path (ReaddirSync p) = p"
| "call_path (ExistsSync p) = p"
| "call_path (SendFile p) = p"
| "call_path (UnlinkSync p) = p"

datatype console_line = ConsoleLog string | ConsoleError string

record world =
  fs :: "(string \<times> node) list"
  console :: "console_line list"
  calls :: "fs_call list"

text \<open>
  What the handlers cannot decide: the installation directory, the clock, and which
  file-system operations fail (permissions, a full disk, a transfer that breaks before or
  after the response headers were sent).
\<close>

datatype send_fault = BeforeHeaders | AfterHeaders

record env =
  dirname :: string
  now :: int
  write_denied :: "string list"
  readdir_denied :: bool
  unlink_denied :: "string list"
  send_faults :: "(string \<times> send_fault) list"

datatype json = JString string | JArray "json list" | JObject "(string \<times> json) list"

datatype payload =
  Send string | Json json | Attachment string string | TruncatedAttachment string

record response =
  status :: nat
  body :: payload

subsection \<open>File-system and response primitives\<close>

text \<open>
  These stand for \<^verbatim>\<open>fs.existsSync\<close>, \<^verbatim>\<open>fs.unlinkSync\<close> and \<^verbatim>\<open>fs.readdirSync\<close>. A path with
  a trailing separator names a directory only. \<^verbatim>\<open>unlinkSync\<close> and \<^verbatim>\<open>readdirSync\<close> throw on
  failure: the first component of their result says whether they returned.
\<close>

definition fs_lookup :: "(string \<times> node) list \<Rightarrow> string \<Rightarrow> node option" where
  "fs_lookup files p =
     (if p \<noteq> [] \<and> p \<noteq> ''/'' \<and> last p = CHR ''/'' then
        (case map_of files (butlast p) of Some Dir \<Rightarrow> Some Dir | _ \<Rightarrow> None)
      else map_of files p)"

definition record_call :: "fs_call \<Rightarrow> world \<Rightarrow> world" where
  "record_call c w = w\<lparr>calls := calls w @ [c]\<rparr>"

definition console_write :: "console_line \<Rightarrow> world \<Rightarrow> world" where
  "console_write l w = w\<lparr>console := console w @ [l]\<rparr>"

definition existsSync :: "string \<Rightarrow> world \<Rightarrow> bool \<times> world" where
  "existsSync p w = (fs_lookup (fs w) p \<noteq> None, record_call (ExistsSync p) w)"

definition unlinkSync :: "env \<Rightarrow> string \<Rightarrow> world \<Rightarrow> bool \<times> world" where
  "unlinkSync e p w =
     (let w1 = record_call (UnlinkSync p) w
      in case fs_lookup (fs w) p of
           Some (File c) \<Rightarrow>
             if p \<in> set (unlink_denied e) then (False, w1)
             else (True, w1\<lparr>fs := AList.delete p (fs w1)\<rparr>)
         | _ \<Rightarrow> (False, w1))"

definition child_name :: "string \<Rightarrow> string \<Rightarrow> string option" where
  "child_name dir q =
     (if prefix (dir @ ''/'') q then
        (let n = drop (length dir + 1) q
         in if n \<noteq> [] \<and> CHR ''/'' \<notin> set n then Some n else None)
      else None)"

definition readdirSync :: "env \<Rightarrow> string \<Rightarrow> world \<Rightarrow> string list option \<times> world" where
  "readdirSync e p w =
     (let w1 = record_call (ReaddirSync p) w
      in if readdir_denied e \<or> fs_lookup (fs w) p \<noteq> Some Dir then (None, w1)
         else (Some (List.map_filter (\<lambda>(q, n). child_name p q) (fs w)), w1))"

text \<open>
  \<^verbatim>\<open>res.download(path, filename, fn)\<close> of Express 4. The file is offered as an attachment
  named by Node's \<^verbatim>\<open>path.basename\<close> of \<^verbatim>\<open>filename || path\<close>: the last segment, trailing
  separators ignored. The file is sent by the \<^verbatim>\<open>send\<close> package, which with its default
  setting refuses a path whose last segment starts with a dot. A refused path, a directory
  and a failed transfer hand an error to the callback; the callback of lines 118-120 answers
  500 unless the headers were already sent.
\<close>

definition path_basename :: "string \<Rightarrow> string" where
  "path_basename p =
     rev (takeWhile (\<lambda>c. c \<noteq> CHR ''/'') (dropWhile (\<lambda>c. c = CHR ''/'') (rev p)))"

definition containsDotFile :: "string list \<Rightarrow> bool" where
  "containsDotFile parts = list_ex (\<lambda>part. length part > 1 \<and> hd part = CHR ''.'') parts"

definition dotfile_ignored :: "string \<Rightarrow> bool" where
  "dotfile_ignored p =
     (let parts = split_sep p
      in containsDotFile parts \<and>
         (case last parts of [] \<Rightarrow> False | c # cs \<Rightarrow> c = CHR ''.''))"

definition res_download :: "env \<Rightarrow> string \<Rightarrow> string \<Rightarrow> world \<Rightarrow> response \<times> world" where
  "res_download e filePath name w =
     (let w1 = record_call (SendFile filePath) w;
          failed = \<lparr>status = 500, body = Send ''Could not complete the download.''\<rparr>;
          attachment = path_basename (if name = [] then filePath else name)
      in case fs_lookup (fs w) filePath of
           Some (File c) \<Rightarrow>
             if dotfile_ignored filePath then (failed, w1)
             else
               (case map_of (send_faults e) filePath of
                  None \<Rightarrow> (\<lparr>status = 200, body = Attachment attachment c\<rparr>, w1)
                | Some BeforeHeaders \<Rightarrow> (failed, w1)
                | Some AfterHeaders \<Rightarrow>
                    (\<lparr>status = 200, body = TruncatedAttachment attachment\<rparr>, w1))
         | _ \<Rightarrow> (failed, w1))"

text \<open>
  \<^verbatim>\<open>upload.single('secureFile')\<close> (line 70) is Multer's middleware with the disk storage of
  lines 47-50. Multer's parser reduces the file name the client sent to what follows its
  last \<^verbatim>\<open>/\<close> or backslash, and to the empty name when that is \<^verbatim>\<open>.\<close> or \<^verbatim>\<open>..\<close>; this is the
  \<^verbatim>\<open>originalname\<close> that the \<^verbatim>\<open>filename\<close> callback of line 49 sees. A part whose name is
  then empty is skipped and \<^verbatim>\<open>req.file\<close> stays undefined. Otherwise the bytes are written
  to \<^verbatim>\<open>path.join(destination, filename)\<close> and \<^verbatim>\<open>req.file\<close> is set. The middleware runs
  before the route handler. A failed write is passed to Express's error handling (\<open>Inl\<close>)
  and the handler is not called. A request carries at most one file part, under the field
  name \<^verbatim>\<open>secureFile\<close>; bodies with file parts under other names, or with several files,
  are outside the request type.
\<close>

definition busboy_basename :: "string \<Rightarrow> string" where
  "busboy_basename p =
     (let b = rev (takeWhile (\<lambda>c. c \<noteq> CHR ''/'' \<and> c \<noteq> CHR 0x5C) (rev p))
      in if b = ''..'' \<or> b = ''.'' then [] else b)"

definition upload_single ::
  "env \<Rightarrow> request \<Rightarrow> world \<Rightarrow> world + (uploaded_file option \<times> world)" where
  "upload_single e req w =
     (case secureFile req of
        None \<Rightarrow> Inr (None, w)
      | Some (sent_name, bytes) \<Rightarrow>
          (let orig = busboy_basename sent_name
           in if orig = [] then Inr (None, w)
              else
                (let name = storage_filename (now e) orig;
                     p = path_join [UPLOAD_PATH (dirname e), name];
                     w1 = record_call (WriteFile p) w
                 in if p \<in> set (write_denied e) then Inl w1
                    else Inr (Some \<lparr>originalname = orig, filename = name\<rparr>,
                              w1\<lparr>fs := AList.update p (File bytes) (fs w1)\<rparr>))))"

subsection \<open>The route handlers (lines 70-156)\<close>

text \<open>\<^verbatim>\<open>clientCert && clientCert.subject\<close>: the subject, when both are present.\<close>

definition client_subject :: "request \<Rightarrow> cert_subject option" where
  "client_subject req = (case peerCertificate req of None \<Rightarrow> None | Some cert \<Rightarrow> subject cert)"

text \<open>\<^verbatim>\<open>clientCert.subject.CN || 'Unknown Client'\<close> (line 75).\<close>

definition cn_or_unknown :: "cert_subject \<Rightarrow> string" where
  "cn_or_unknown s =
     (case CN s of None \<Rightarrow> ''Unknown Client'' | Some c \<Rightarrow> if c = [] then ''Unknown Client'' else c)"

text \<open>\<^verbatim>\<open>${clientCert.subject.CN}\<close> inside a template literal (lines 96, 117, 147).\<close>

definition cn_text :: "cert_subject \<Rightarrow> string" where
  "cn_text s = (case CN s of None \<Rightarrow> ''undefined'' | Some c \<Rightarrow> c)"

text \<open>
  1. \<^verbatim>\<open>app.post('/upload', upload.single('secureFile'), ...)\<close>, lines 70-85. When the
  middleware fails, no handler of the server runs: Express's default error handling prints
  the error and answers 500.
\<close>

definition post_upload :: "env \<Rightarrow> request \<Rightarrow> world \<Rightarrow> response \<times> world" where
  "post_upload e req w =
     (case upload_single e req w of
        Inl w1 \<Rightarrow>
          (\<lparr>status = 500, body = Send ''Internal Server Error''\<rparr>,
           console_write (ConsoleError ''Error: upload failed'') w1)
      | Inr (file, w1) \<Rightarrow>
          (case file of
             None \<Rightarrow> (\<lparr>status = 400, body = Send ''No file uploaded.''\<rparr>, w1)
           | Some f \<Rightarrow>
               (case client_subject req of
                  Some s \<Rightarrow>
                    (let clientIdentifier = cn_or_unknown s
                     in (\<lparr>status = 200,
                          body = Json (JObject
                            [(''message'', JString ''File uploaded securely!''),
                             (''filename'', JString (filename f)),
                             (''clientCN'', JString clientIdentifier)])\<rparr>,
                         console_write
                           (ConsoleLog (''[UPLOAD] File uploaded by secure client. CN: ''
                              @ clientIdentifier)) w1))
                | None \<Rightarrow>
                    (\<lparr>status = 401,
                      body = Send ''Unauthorized access (mTLS handshake failed).''\<rparr>, w1))))"

text \<open>2. \<^verbatim>\<open>app.get('/files', ...)\<close>, lines 88-102.\<close>

definition get_files :: "env \<Rightarrow> request \<Rightarrow> world \<Rightarrow> response \<times> world" where
  "get_files e req w =
     (case client_subject req of
        None \<Rightarrow>
          (\<lparr>status = 401,
            body = Send ''Unauthorized. mTLS client identity required to list files.''\<rparr>, w)
      | Some s \<Rightarrow>
          (case readdirSync e (UPLOAD_PATH (dirname e)) w of
             (Some files, w1) \<Rightarrow>
               (\<lparr>status = 200, body = Json (JArray (map JString files))\<rparr>,
                console_write
                  (ConsoleLog (''[LIST] Client '' @ cn_text s @ '' listed ''
                     @ show_nat (length files) @ '' files.'')) w1)
           | (None, w1) \<Rightarrow>
               (\<lparr>status = 500,
                 body = Json (JObject [(''error'', JString ''Failed to read upload directory.'')])\<rparr>,
                console_write (ConsoleError ''Error reading upload directory:'') w1)))"

text \<open>3. \<^verbatim>\<open>app.get('/download/:filename', ...)\<close>, lines 105-127.\<close>

definition get_download :: "env \<Rightarrow> request \<Rightarrow> world \<Rightarrow> response \<times> world" where
  "get_download e req w =
     (let filename = params_filename req
      in if str_includes filename ''..'' then
           (\<lparr>status = 400, body = Send ''Invalid filename provided.''\<rparr>, w)
         else
           (let filePath = path_join [UPLOAD_PATH (dirname e), filename]
            in case client_subject req of
                 Some s \<Rightarrow>
                   (case existsSync filePath w of
                      (True, w1) \<Rightarrow>
                        res_download e filePath filename
                          (console_write
                             (ConsoleLog (''[DOWNLOAD] Client '' @ cn_text s
                                @ '' downloading file: '' @ filename)) w1)
                    | (False, w1) \<Rightarrow>
                        (\<lparr>status = 404, body = Send ''File not found.''\<rparr>, w1))
               | None \<Rightarrow>
                   (\<lparr>status = 401,
                     body = Send ''Unauthorized. mTLS client identity required.''\<rparr>, w)))"

text \<open>4. \<^verbatim>\<open>app.delete('/files/:filename', ...)\<close>, lines 130-156.\<close>

definition delete_files :: "env \<Rightarrow> request \<Rightarrow> world \<Rightarrow> response \<times> world" where
  "delete_files e req w =
     (let filename = params_filename req
      in if str_includes filename ''..'' then
           (\<lparr>status = 400,
             body = Json (JObject [(''error'', JString ''Invalid filename provided.'')])\<rparr>, w)
         else
           (let filePath = path_join [UPLOAD_PATH (dirname e), filename]
            in case client_subject req of
                 None \<Rightarrow>
                   (\<lparr>status = 401,
                     body = Send ''Unauthorized. mTLS client identity required for deletion.''\<rparr>,
                    w)
               | Some s \<Rightarrow>
                   (case existsSync filePath w of
                      (True, w1) \<Rightarrow>
                        (case unlinkSync e filePath w1 of
                           (True, w2) \<Rightarrow>
                             (\<lparr>status = 200,
                               body = Json (JObject
                                 [(''message'',
                                   JString (''File '' @ filename @ '' deleted successfully.''))])\<rparr>,
                              console_write
                                (ConsoleLog (''[DELETE] Client '' @ cn_text s
                                   @ '' deleted file: '' @ filename)) w2)
                         | (False, w2) \<Rightarrow>
                             (\<lparr>status = 500,
                               body = Json (JObject
                                 [(''error'',
                                   JString ''Failed to delete file from disk. Check server permissions.'')])\<rparr>,
                              console_write (ConsoleError ''Error deleting file:'') w2))
                    | (False, w1) \<Rightarrow>
                        (\<lparr>status = 404, body = Json (JObject [(''error'', JString ''File not found.'')])\<rparr>,
                         w1))))"

text \<open>The four custody operations and the handler each is routed to.\<close>

datatype operation = Put | List | Get | Delete

fun route :: "operation \<Rightarrow> env \<Rightarrow> request \<Rightarrow> world \<Rightarrow> response \<times> world" where
  "route Put = post_upload"
| "route List = get_files"
| "route Get = get_download"
| "route Delete = delete_files"

text \<open>
  The route patterns \<^verbatim>\<open>/download/:filename\<close> and \<^verbatim>\<open>/files/:filename\<close> (lines 105, 130)
  match a non-empty parameter only. A request for \<^verbatim>\<open>/download/\<close>, or a \<^verbatim>\<open>DELETE\<close> of
  \<^verbatim>\<open>/files/\<close>, matches no route: Express answers 404 with its \<^verbatim>\<open>Cannot ...\<close> page and no
  handler runs. \<open>app_handle\<close> is \<open>route\<close> behind this matching.
\<close>

definition unmatched :: "operation \<Rightarrow> string" where
  "unmatched op =
     (case op of Get \<Rightarrow> ''Cannot GET /download/'' | Delete \<Rightarrow> ''Cannot DELETE /files/''
      | _ \<Rightarrow> [])"

definition app_handle :: "operation \<Rightarrow> env \<Rightarrow> request \<Rightarrow> world \<Rightarrow> response \<times> world" where
  "app_handle op e req w =
     (if (op = Get \<or> op = Delete) \<and> params_filename req = [] then
        (\<lparr>status = 404, body = Send (unmatched op)\<rparr>, w)
      else route op e req w)"

subsection \<open>Notions used in the statements\<close>

text \<open>
  A path is inside the root when it is the root or continues it after a separator, and no
  segment of the continuation is \<^verbatim>\<open>..\<close>. This is a property of the path as a string:
  the server never resolves symbolic links.
\<close>

definition within_root :: "string \<Rightarrow> string \<Rightarrow> bool" where
  "within_root root p =
     (prefix root p \<and>
      (let rest = drop (length root) p
       in (rest = [] \<or> hd rest = CHR ''/'') \<and> ''..'' \<notin> set (split_sep rest)))"

text \<open>The file-system calls and console lines a request added.\<close>

definition new_calls :: "world \<Rightarrow> world \<Rightarrow> fs_call list" where
  "new_calls w w' = drop (length (calls w)) (calls w')"

definition new_console :: "world \<Rightarrow> world \<Rightarrow> console_line list" where
  "new_console w w' = drop (length (console w)) (console w')"

text \<open>
  The tag each handler puts at the front of its \<^verbatim>\<open>console.log\<close> line, and what a request
  with a given status code leaves on the console.
\<close>

definition op_tag :: "operation \<Rightarrow> string" where
  "op_tag op =
     (case op of Put \<Rightarrow> ''[UPLOAD]'' | List \<Rightarrow> ''[LIST]'' | Get \<Rightarrow> ''[DOWNLOAD]''
      | Delete \<Rightarrow> ''[DELETE]'')"

definition audit_shape :: "operation \<Rightarrow> nat \<Rightarrow> console_line list \<Rightarrow> bool" where
  "audit_shape op code lines =
     (if code = 200 then (case lines of [ConsoleLog l] \<Rightarrow> prefix (op_tag op) l | _ \<Rightarrow> False)
      else if code = 500 then length lines = 1
      else (code = 400 \<or> code = 401 \<or> code = 404) \<and> lines = [])"

subsection \<open>Auxiliary notions for the proofs\<close>

definition is_digit :: "char \<Rightarrow> bool" where
  "is_digit c = (c \<in> set ''0123456789'')"

definition keep_seg :: "string \<Rightarrow> bool" where
  "keep_seg s = (s \<noteq> [] \<and> s \<noteq> ''.'')"

definition slashed :: "string list \<Rightarrow> string" where
  "slashed segs = concat (map ((#) CHR ''/'') segs)"

fun good_stack :: "bool \<Rightarrow> string list \<Rightarrow> bool" where
  "good_stack al [] = True"
| "good_stack al (s # st) =
     (s \<noteq> [] \<and> s \<noteq> ''.'' \<and> CHR ''/'' \<notin> set s \<and>
      (if s = ''..'' then al \<and> set st \<subseteq> {''..''} else good_stack al st))"

definition normal_form :: "string \<Rightarrow> string list \<Rightarrow> bool" where
  "normal_form U st \<longleftrightarrow>
     st \<noteq> [] \<and> (\<exists>ab. good_stack (\<not> ab) st \<and> U = (if ab then ''/'' else []) @ join_sep (rev st))"

subsection \<open>A concrete deployment\<close>

text \<open>
  The server installed in \<^verbatim>\<open>/srv/octoshare/backend/src\<close>, so that the upload directory is
  \<^verbatim>\<open>/srv/octoshare/uploads\<close>, holding one subdirectory with one file; a client whose
  certificate names \<^verbatim>\<open>alice\<close>, and a peer without a certificate. A second state of the
  store holds a dot file.
\<close>

definition example_env :: env where
  "example_env =
     \<lparr>dirname = ''/srv/octoshare/backend/src'', now = 1700000000000, write_denied = [],
      readdir_denied = False, unlink_denied = [], send_faults = []\<rparr>"

definition example_world :: world where
  "example_world =
     \<lparr>fs = [(''/srv/octoshare/uploads'', Dir),
            (''/srv/octoshare/uploads/sub'', Dir),
            (''/srv/octoshare/uploads/sub/report.txt'', File ''quarterly figures'')],
      console = [], calls = []\<rparr>"

definition example_world_dotfile :: world where
  "example_world_dotfile =
     \<lparr>fs = [(''/srv/octoshare/uploads'', Dir),
            (''/srv/octoshare/uploads/.env'', File ''SECRET=1'')],
      console = [], calls = []\<rparr>"

definition alice :: "peer_certificate option" where
  "alice = Some \<lparr>subject = Some \<lparr>CN = Some ''alice''\<rparr>\<rparr>"

definition no_certificate :: "peer_certificate option" where
  "no_certificate = Some \<lparr>subject = None\<rparr>"

section \<open>Facts about strings and stored names\<close>

lemma show_nat_small: "n < 10 \<Longrightarrow> show_nat n = [digit_char n]"
  by (subst show_nat.simps) simp

lemma show_nat_large:
  "\<not> n < 10 \<Longrightarrow> show_nat n = show_nat (n div 10) @ [digit_char (n mod 10)]"
  by (subst show_nat.simps) simp

lemma includes_iff: "str_includes s sub \<longleftrightarrow> (\<exists>a b. s = a @ sub @ b)"
proof (induction s)
  case Nil
  then show ?case by auto
next
  case (Cons c cs)
  show ?case
  proof
    assume "str_includes (c # cs) sub"
    then consider "prefix sub (c # cs)" | "str_includes cs sub" by auto
    then show "\<exists>a b. c # cs = a @ sub @ b"
    proof cases
      case 1
      then obtain b where "c # cs = sub @ b" by (auto simp: prefix_def)
      then have "c # cs = [] @ sub @ b" by simp
      then show ?thesis by blast
    next
      case 2
      with Cons.IH obtain a b where "cs = a @ sub @ b" by blast
      then have "c # cs = (c # a) @ sub @ b" by simp
      then show ?thesis by blast
    qed
  next
    assume "\<exists>a b. c # cs = a @ sub @ b"
    then obtain a b where ab: "c # cs = a @ sub @ b" by blast
    show "str_includes (c # cs) sub"
    proof (cases a)
      case Nil
      with ab have "prefix sub (c # cs)" by (simp add: prefix_def)
      then show ?thesis by simp
    next
      case (Cons x a')
      with ab have "cs = a' @ sub @ b" by simp
      with Cons.IH have "str_includes cs sub" by blast
      then show ?thesis by simp
    qed
  qed
qed

lemma digit_char_is_digit: "d < 10 \<Longrightarrow> is_digit (digit_char d)"
  unfolding is_digit_def digit_char_def by (rule nth_mem) simp

lemma digit_char_inj: "a < 10 \<Longrightarrow> b < 10 \<Longrightarrow> digit_char a = digit_char b \<Longrightarrow> a = b"
proof -
  assume a: "a < 10" and b: "b < 10" and eq: "digit_char a = digit_char b"
  have d: "distinct ''0123456789''" by simp
  have la: "a < length ''0123456789''" using a by simp
  have lb: "b < length ''0123456789''" using b by simp
  from eq show "a = b"
    unfolding digit_char_def using nth_eq_iff_index_eq [OF d la lb] by blast
qed

lemma show_nat_digits: "\<forall>c \<in> set (show_nat n). is_digit c"
proof (induction n rule: show_nat.induct)
  case (1 n)
  show ?case
  proof (cases "n < 10")
    case True
    then show ?thesis by (simp add: show_nat_small digit_char_is_digit)
  next
    case False
    have m: "n mod 10 < 10" by simp
    have "\<forall>c \<in> set (show_nat (n div 10)). is_digit c" using 1 False by simp
    then show ?thesis using digit_char_is_digit [OF m] by (simp add: show_nat_large [OF False])
  qed
qed

lemma show_nat_nonempty: "show_nat n \<noteq> []"
  by (cases "n < 10") (simp_all add: show_nat_small show_nat_large)

lemma show_nat_inj: "show_nat a = show_nat b \<Longrightarrow> a = b"
proof (induction a arbitrary: b rule: show_nat.induct)
  case (1 a)
  show ?case
  proof (cases "a < 10")
    case True
    note a10 = this
    show ?thesis
    proof (cases "b < 10")
      case True
      with a10 "1.prems" have "digit_char a = digit_char b" by (simp add: show_nat_small)
      with a10 True show ?thesis by (rule digit_char_inj)
    next
      case False
      then have "show_nat b = show_nat (b div 10) @ [digit_char (b mod 10)]"
        by (rule show_nat_large)
      moreover have "show_nat a = [digit_char a]" using a10 by (rule show_nat_small)
      ultimately have "show_nat (b div 10) = []" using "1.prems" by (simp add: append_eq_Cons_conv)
      with show_nat_nonempty show ?thesis by blast
    qed
  next
    case False
    note a10 = this
    have sa: "show_nat a = show_nat (a div 10) @ [digit_char (a mod 10)]"
      using a10 by (rule show_nat_large)
    show ?thesis
    proof (cases "b < 10")
      case True
      then have "show_nat b = [digit_char b]" by (rule show_nat_small)
      with sa "1.prems" have "show_nat (a div 10) = []" by (simp add: append_eq_Cons_conv)
      with show_nat_nonempty show ?thesis by blast
    next
      case False
      then have sb: "show_nat b = show_nat (b div 10) @ [digit_char (b mod 10)]"
        by (rule show_nat_large)
      from sa sb "1.prems" have q: "show_nat (a div 10) = show_nat (b div 10)"
        and r: "digit_char (a mod 10) = digit_char (b mod 10)" by simp_all
      from "1.IH" [OF a10 q] have "a div 10 = b div 10" .
      moreover have "a mod 10 = b mod 10" by (rule digit_char_inj [OF _ _ r]) simp_all
      ultimately show ?thesis by (metis div_mult_mod_eq)
    qed
  qed
qed

lemma is_digit_not_special:
  "is_digit c \<Longrightarrow> c \<noteq> CHR ''-'' \<and> c \<noteq> CHR ''.'' \<and> c \<noteq> CHR ''/''"
  by (auto simp: is_digit_def)

lemma show_int_chars:
  "c \<in> set (show_int i) \<Longrightarrow> c \<noteq> CHR ''.'' \<and> c \<noteq> CHR ''/''"
  using show_nat_digits is_digit_not_special by (auto simp: show_int_def split: if_splits)

lemma digits_dash_split:
  assumes "\<forall>c \<in> set d1. c \<noteq> CHR ''-''" and "\<forall>c \<in> set d2. c \<noteq> CHR ''-''"
    and "d1 @ CHR ''-'' # n1 = d2 @ CHR ''-'' # n2"
  shows "d1 = d2 \<and> n1 = n2"
proof -
  have t1: "takeWhile (\<lambda>c. c \<noteq> CHR ''-'') (d1 @ CHR ''-'' # n1) = d1"
    using assms(1) by (simp add: takeWhile_append2)
  have t2: "takeWhile (\<lambda>c. c \<noteq> CHR ''-'') (d2 @ CHR ''-'' # n2) = d2"
    using assms(2) by (simp add: takeWhile_append2)
  from t1 t2 assms(3) have "d1 = d2" by simp
  with assms(3) show ?thesis by simp
qed

lemma show_nat_no_dash: "\<forall>c \<in> set (show_nat n). c \<noteq> CHR ''-''"
  using show_nat_digits is_digit_not_special by blast

lemma storage_filename_inj:
  assumes "storage_filename t1 n1 = storage_filename t2 n2"
  shows "t1 = t2 \<and> n1 = n2"
proof -
  let ?a = "show_nat (nat \<bar>t1\<bar>)" and ?b = "show_nat (nat \<bar>t2\<bar>)"
  have hd_a: "hd (?a @ CHR ''-'' # n1) \<noteq> CHR ''-''"
    using show_nat_nonempty [of "nat \<bar>t1\<bar>"] show_nat_no_dash [of "nat \<bar>t1\<bar>"]
    by (cases ?a) auto
  have hd_b: "hd (?b @ CHR ''-'' # n2) \<noteq> CHR ''-''"
    using show_nat_nonempty [of "nat \<bar>t2\<bar>"] show_nat_no_dash [of "nat \<bar>t2\<bar>"]
    by (cases ?b) auto
  consider (nn) "t1 < 0" "t2 < 0" | (pp) "\<not> t1 < 0" "\<not> t2 < 0"
    | (np) "t1 < 0" "\<not> t2 < 0" | (pn) "\<not> t1 < 0" "t2 < 0" by blast
  then show ?thesis
  proof cases
    case nn
    with assms have "?a @ CHR ''-'' # n1 = ?b @ CHR ''-'' # n2"
      by (simp add: storage_filename_def show_int_def abs_if)
    from digits_dash_split [OF show_nat_no_dash show_nat_no_dash this]
    have "?a = ?b" and "n1 = n2" by simp_all
    from show_nat_inj [OF this(1)] nn \<open>n1 = n2\<close> show ?thesis by simp
  next
    case pp
    with assms have "?a @ CHR ''-'' # n1 = ?b @ CHR ''-'' # n2"
      by (simp add: storage_filename_def show_int_def abs_if)
    from digits_dash_split [OF show_nat_no_dash show_nat_no_dash this]
    have "?a = ?b" and "n1 = n2" by simp_all
    from show_nat_inj [OF this(1)] pp \<open>n1 = n2\<close> show ?thesis by simp
  next
    case np
    with assms have "CHR ''-'' # ?a @ CHR ''-'' # n1 = ?b @ CHR ''-'' # n2"
      by (simp add: storage_filename_def show_int_def abs_if)
    then have "hd (?b @ CHR ''-'' # n2) = CHR ''-''" by (metis list.sel(1))
    with hd_b show ?thesis by blast
  next
    case pn
    with assms have "?a @ CHR ''-'' # n1 = CHR ''-'' # ?b @ CHR ''-'' # n2"
      by (simp add: storage_filename_def show_int_def abs_if)
    then have "hd (?a @ CHR ''-'' # n1) = CHR ''-''" by (metis list.sel(1))
    with hd_a show ?thesis by blast
  qed
qed

lemma dotdot_after_prefix:
  "CHR ''.'' \<notin> set d \<Longrightarrow> c \<noteq> CHR ''.'' \<Longrightarrow>
   str_includes (d @ c # n) ''..'' = str_includes n ''..''"
  by (induction d) auto

lemma storage_filename_dotdot:
  "str_includes (storage_filename t n) ''..'' = str_includes n ''..''"
proof -
  have "CHR ''.'' \<notin> set (show_int t)" using show_int_chars by blast
  then show ?thesis unfolding storage_filename_def by (simp add: dotdot_after_prefix)
qed

lemma is_digit_not_backslash: "is_digit c \<Longrightarrow> c \<noteq> CHR 0x5C"
  by (auto simp: is_digit_def)

lemma show_int_no_backslash: "CHR 0x5C \<notin> set (show_int i)"
proof
  assume "CHR 0x5C \<in> set (show_int i)"
  then have "CHR 0x5C \<in> set (show_nat (nat (- i))) \<or> CHR 0x5C \<in> set (show_nat (nat i))"
    by (auto simp: show_int_def split: if_splits)
  then have "is_digit (CHR 0x5C)" using show_nat_digits by blast
  then show False using is_digit_not_backslash by blast
qed

lemma busboy_basename_chars:
  "c \<in> set (busboy_basename p) \<Longrightarrow> c \<noteq> CHR ''/'' \<and> c \<noteq> CHR 0x5C"
  by (auto simp: busboy_basename_def Let_def split: if_splits dest: set_takeWhileD)

section \<open>Facts about paths\<close>

lemma split_sep_nonempty: "split_sep p \<noteq> []"
  by (induction p) (auto split: list.splits)

lemma split_sep_Cons:
  "split_sep (c # cs) =
     (if c = CHR ''/'' then [] # split_sep cs
      else (c # hd (split_sep cs)) # tl (split_sep cs))"
  using split_sep_nonempty [of cs] by (cases "split_sep cs") auto

lemma split_sep_append: "split_sep (a @ CHR ''/'' # b) = split_sep a @ split_sep b"
proof (induction a)
  case Nil
  then show ?case by simp
next
  case (Cons c a)
  then show ?case using split_sep_nonempty [of a] by (cases "split_sep a") auto
qed

lemma split_sep_no_slash: "s \<in> set (split_sep p) \<Longrightarrow> CHR ''/'' \<notin> set s"
proof (induction p arbitrary: s)
  case Nil
  then show ?case by simp
next
  case (Cons c p)
  then show ?case
    using split_sep_nonempty [of p]
    by (cases "split_sep p") (auto split: if_splits)
qed

lemma split_sep_plain: "CHR ''/'' \<notin> set s \<Longrightarrow> split_sep s = [s]"
  by (induction s) auto

lemma split_sep_join:
  "segs \<noteq> [] \<Longrightarrow> \<forall>s \<in> set segs. CHR ''/'' \<notin> set s \<Longrightarrow> split_sep (join_sep segs) = segs"
proof (induction segs rule: join_sep.induct)
  case 1
  then show ?case by simp
next
  case (2 s)
  then show ?case by (simp add: split_sep_plain)
next
  case (3 s t ss)
  then show ?case by (simp add: split_sep_append split_sep_plain)
qed

lemma split_sep_hd_prefix: "\<exists>b. p = hd (split_sep p) @ b"
  using split_sep_nonempty by (induction p) (auto split: list.splits)

lemma split_sep_substring: "s \<in> set (split_sep p) \<Longrightarrow> \<exists>a b. p = a @ s @ b"
proof (induction p arbitrary: s)
  case Nil
  then show ?case by simp
next
  case (Cons c p)
  obtain h t where ht: "split_sep p = h # t"
    using split_sep_nonempty [of p] by (cases "split_sep p") auto
  show ?case
  proof (cases "c = CHR ''/''")
    case True
    with Cons.prems consider "s = []" | "s \<in> set (split_sep p)" by auto
    then show ?thesis
    proof cases
      case 1
      then have "c # p = [] @ s @ (c # p)" by simp
      then show ?thesis by blast
    next
      case 2
      with Cons.IH obtain a b where "p = a @ s @ b" by blast
      then have "c # p = (c # a) @ s @ b" by simp
      then show ?thesis by blast
    qed
  next
    case False
    with Cons.prems ht consider "s = c # h" | "s \<in> set t" by auto
    then show ?thesis
    proof cases
      case 1
      obtain b where "p = h @ b" using split_sep_hd_prefix [of p] ht by auto
      with 1 have "c # p = [] @ s @ b" by simp
      then show ?thesis by blast
    next
      case 2
      then have "s \<in> set (split_sep p)" using ht by simp
      with Cons.IH obtain a b where "p = a @ s @ b" by blast
      then have "c # p = (c # a) @ s @ b" by simp
      then show ?thesis by blast
    qed
  qed
qed

lemma no_dotdot_segment:
  "\<not> str_includes name ''..'' \<Longrightarrow> ''..'' \<notin> set (split_sep name)"
  using split_sep_substring [of "''..''" name] by (auto simp: includes_iff)

lemma foldl_norm_step_plain:
  "''..'' \<notin> set N \<Longrightarrow> foldl (norm_step al) st N = rev (filter keep_seg N) @ st"
  by (induction N arbitrary: st) (auto simp: norm_step_def keep_seg_def)

lemma good_stack_dotdots: "al \<Longrightarrow> set st \<subseteq> {''..''} \<Longrightarrow> good_stack al st"
  by (induction st) auto

lemma good_stack_tl: "good_stack al (s # st) \<Longrightarrow> good_stack al st"
  by (auto simp: good_stack_dotdots split: if_splits)

lemma good_stack_step:
  "good_stack al st \<Longrightarrow> CHR ''/'' \<notin> set seg \<Longrightarrow> good_stack al (norm_step al st seg)"
  by (cases st) (auto simp: norm_step_def good_stack_dotdots split: if_splits)

lemma good_stack_foldl:
  "good_stack al st \<Longrightarrow> \<forall>s \<in> set segs. CHR ''/'' \<notin> set s \<Longrightarrow>
   good_stack al (foldl (norm_step al) st segs)"
  by (induction segs arbitrary: st) (auto simp: good_stack_step)

lemma good_stack_segments:
  "good_stack al st \<Longrightarrow> s \<in> set st \<Longrightarrow> s \<noteq> [] \<and> CHR ''/'' \<notin> set s"
  by (induction st) (auto split: if_splits)

lemma good_stack_refold:
  "good_stack al st \<Longrightarrow> foldl (norm_step al) [] (rev st) = st"
proof (induction st)
  case Nil
  then show ?case by simp
next
  case (Cons s st)
  have "good_stack al st" using Cons.prems by (rule good_stack_tl)
  with Cons.IH have ih: "foldl (norm_step al) [] (rev st) = st" by simp
  have "norm_step al st s = s # st"
    using Cons.prems by (cases st) (auto simp: norm_step_def split: if_splits)
  with ih show ?case by simp
qed

lemma join_sep_Cons: "join_sep (s # ss) = s @ slashed ss"
  by (induction ss arbitrary: s) (auto simp: slashed_def)

lemma join_sep_append: "A \<noteq> [] \<Longrightarrow> join_sep (A @ F) = join_sep A @ slashed F"
  by (cases A) (auto simp: join_sep_Cons slashed_def)

text \<open>
  A path in normal form is an optional leading separator followed by a non-empty stack of
  segments that normalisation leaves alone. \<^verbatim>\<open>UPLOAD_PATH\<close> is in normal form, whatever
  \<^verbatim>\<open>__dirname\<close> is, and joining a name without \<^verbatim>\<open>..\<close> to it only appends segments.
\<close>

lemma join_sep_good_nonempty:
  assumes "st \<noteq> []" "good_stack al st"
  shows "join_sep (rev st) \<noteq> []" "hd (join_sep (rev st)) \<noteq> CHR ''/''"
    "last (join_sep (rev st)) \<noteq> CHR ''/''"
proof -
  obtain f r where fr: "rev st = f # r" using assms(1) by (cases "rev st") auto
  then have "f \<in> set st" by (metis list.set_intros(1) set_rev)
  with assms(2) have f: "f \<noteq> []" "CHR ''/'' \<notin> set f" using good_stack_segments by blast+
  show "join_sep (rev st) \<noteq> []" using fr f by (simp add: join_sep_Cons)
  show "hd (join_sep (rev st)) \<noteq> CHR ''/''"
    using fr f by (cases f) (auto simp: join_sep_Cons)
  obtain l where l: "st = l # tl st" using assms(1) by (cases st) auto
  with assms(2) have lp: "l \<noteq> []" "CHR ''/'' \<notin> set l"
    using good_stack_segments [of al st l] by (metis list.set_intros(1))+
  have "rev st = rev (tl st) @ [l]" using l by (metis rev.simps(2))
  then have "join_sep (rev st) = (if tl st = [] then l else join_sep (rev (tl st)) @ CHR ''/'' # l)"
    by (simp add: join_sep_append slashed_def)
  moreover have "last l \<noteq> CHR ''/''" using lp last_in_set by metis
  ultimately show "last (join_sep (rev st)) \<noteq> CHR ''/''"
    using lp by (auto split: if_splits)
qed

lemma normal_form_fold:
  assumes "good_stack (\<not> ab) st" "st \<noteq> []"
  shows "foldl (norm_step (\<not> ab)) [] (split_sep ((if ab then ''/'' else []) @ join_sep (rev st))) = st"
proof -
  have segs: "\<forall>s \<in> set (rev st). CHR ''/'' \<notin> set s"
    using assms(1) good_stack_segments by auto
  have sp: "split_sep (join_sep (rev st)) = rev st"
    using assms(2) segs by (intro split_sep_join) auto
  show ?thesis
    using good_stack_refold [OF assms(1)] sp by (auto simp: norm_step_def)
qed

lemma normalize_extend:
  assumes nf: "normal_form U st" and nd: "''..'' \<notin> set (split_sep name)"
  shows "normalize (U @ CHR ''/'' # name)
         = U @ slashed (filter keep_seg (split_sep name))
             @ (if (if name = [] then CHR ''/'' else last name) = CHR ''/'' then ''/'' else [])"
proof -
  from nf obtain ab where st: "st \<noteq> []" and g: "good_stack (\<not> ab) st"
    and U: "U = (if ab then ''/'' else []) @ join_sep (rev st)"
    by (auto simp: normal_form_def)
  note j = join_sep_good_nonempty [OF st g]
  let ?p = "U @ CHR ''/'' # name"
  have abs: "(hd ?p = CHR ''/'') = ab" using U j by (auto simp: hd_append)
  have nf': "foldl (norm_step (\<not> ab)) [] (split_sep U) = st"
    using normal_form_fold [OF g st] U by simp
  have fold: "foldl (norm_step (\<not> ab)) [] (split_sep ?p)
        = rev (filter keep_seg (split_sep name)) @ st"
    by (simp add: split_sep_append nf' foldl_norm_step_plain [OF nd])
  have ns: "normalizeString ?p (\<not> ab) = join_sep (rev st) @ slashed (filter keep_seg (split_sep name))"
    unfolding normalizeString_def fold using st by (simp add: join_sep_append)
  have ne: "normalizeString ?p (\<not> ab) \<noteq> []" using ns j by simp
  have "normalize ?p = (if ab then ''/'' else []) @ normalizeString ?p (\<not> ab)
         @ (if last ?p = CHR ''/'' then ''/'' else [])"
    using ne abs by (simp add: normalize_def Let_def)
  then show ?thesis using ns U by simp
qed

lemma normalize_normal_form:
  assumes nf: "normal_form U st"
  shows "normalize U = U"
proof -
  from nf obtain ab where st: "st \<noteq> []" and g: "good_stack (\<not> ab) st"
    and U: "U = (if ab then ''/'' else []) @ join_sep (rev st)"
    by (auto simp: normal_form_def)
  note j = join_sep_good_nonempty [OF st g]
  have abs: "(hd U = CHR ''/'') = ab" using U j by (auto simp: hd_append)
  have lst: "last U \<noteq> CHR ''/''" using U j by auto
  have ne: "U \<noteq> []" using U j by auto
  have ns: "normalizeString U (\<not> ab) = join_sep (rev st)"
    unfolding normalizeString_def using normal_form_fold [OF g st] U by simp
  show ?thesis using ne abs lst ns j U by (simp add: normalize_def Let_def)
qed

lemma normalize_is_normal_form:
  assumes "normalizeString p (hd p \<noteq> CHR ''/'') \<noteq> []" "p \<noteq> []" "last p \<noteq> CHR ''/''"
  shows "normal_form (normalize p) (foldl (norm_step (hd p \<noteq> CHR ''/'')) [] (split_sep p))"
proof -
  let ?al = "hd p \<noteq> CHR ''/''"
  let ?st = "foldl (norm_step ?al) [] (split_sep p)"
  have g: "good_stack ?al ?st"
    by (rule good_stack_foldl) (auto dest: split_sep_no_slash)
  have ne: "?st \<noteq> []" using assms(1) by (auto simp: normalizeString_def)
  have "normalize p = (if \<not> ?al then ''/'' else []) @ join_sep (rev ?st)"
    using assms by (simp add: normalize_def Let_def normalizeString_def)
  with g ne show ?thesis unfolding normal_form_def by (intro conjI exI [of _ "\<not> ?al"]) auto
qed

lemma join_sep_snoc_nonempty: "s \<noteq> [] \<Longrightarrow> join_sep (A @ [s]) \<noteq> []"
  by (cases "A = []") (simp_all add: join_sep_append slashed_def)

lemma UPLOAD_PATH_normal_form: "\<exists>st. normal_form (UPLOAD_PATH d) st"
proof -
  define p where "p = join_sep (filter (\<lambda>arg. arg \<noteq> []) [d, ''..'', ''..'', ''uploads''])"
  have "p = (if d = [] then [] else d @ ''/'') @ ''../../uploads''"
    by (simp add: p_def)
  then obtain x where x: "p = x @ CHR ''/'' # ''uploads''" by (cases "d = []") auto
  have sp: "split_sep p = split_sep x @ [''uploads'']"
    unfolding x by (simp add: split_sep_append)
  define al where "al = (hd p \<noteq> CHR ''/'')"
  have "foldl (norm_step al) [] (split_sep p)
        = ''uploads'' # foldl (norm_step al) [] (split_sep x)"
    unfolding sp by (simp add: norm_step_def)
  then have ns: "normalizeString p (hd p \<noteq> CHR ''/'') \<noteq> []"
    unfolding normalizeString_def al_def [symmetric]
    by (simp add: join_sep_snoc_nonempty)
  have pne: "p \<noteq> []" using x by simp
  have lst: "last p \<noteq> CHR ''/''" unfolding x by simp
  have "UPLOAD_PATH d = normalize p"
    by (simp add: UPLOAD_PATH_def path_join_def p_def)
  with normalize_is_normal_form [OF ns pne lst] show ?thesis by metis
qed

lemma path_join_UPLOAD_PATH:
  assumes "\<not> str_includes name ''..''"
  shows "path_join [UPLOAD_PATH d, name]
         = UPLOAD_PATH d @ slashed (filter keep_seg (split_sep name))
             @ (if name \<noteq> [] \<and> last name = CHR ''/'' then ''/'' else [])"
proof -
  obtain st where nf: "normal_form (UPLOAD_PATH d) st"
    using UPLOAD_PATH_normal_form by blast
  have une: "UPLOAD_PATH d \<noteq> []"
    using nf join_sep_good_nonempty(1) by (auto simp: normal_form_def)
  show ?thesis
  proof (cases "name = []")
    case True
    then show ?thesis
      using une normalize_normal_form [OF nf]
      by (simp add: path_join_def slashed_def keep_seg_def)
  next
    case False
    have "path_join [UPLOAD_PATH d, name] = normalize (UPLOAD_PATH d @ CHR ''/'' # name)"
      using une False by (simp add: path_join_def)
    with normalize_extend [OF nf no_dotdot_segment [OF assms]] False show ?thesis by simp
  qed
qed

lemma slashed_shape: "slashed F = [] \<or> (\<exists>y. slashed F = CHR ''/'' # y)"
  by (cases F) (auto simp: slashed_def)

lemma split_sep_slashed:
  assumes "\<forall>s \<in> set F. CHR ''/'' \<notin> set s" and "t = [] \<or> t = ''/''"
  shows "set (split_sep (slashed F @ t)) \<subseteq> insert [] (set F)"
  using assms(1)
proof (induction F)
  case Nil
  then show ?case using assms(2) by (auto simp: slashed_def)
next
  case (Cons f F)
  define y where "y = slashed F @ t"
  have ih: "set (split_sep y) \<subseteq> insert [] (set F)" using Cons by (simp add: y_def)
  have f: "CHR ''/'' \<notin> set f" using Cons.prems by simp
  have eq: "slashed (f # F) @ t = CHR ''/'' # f @ y" by (simp add: slashed_def y_def)
  have "y = [] \<or> (\<exists>y'. y = CHR ''/'' # y')"
    using slashed_shape [of F] assms(2) by (auto simp: y_def)
  then show ?case
  proof
    assume "y = []"
    then show ?thesis unfolding eq using f by (simp add: split_sep_plain)
  next
    assume "\<exists>y'. y = CHR ''/'' # y'"
    then obtain y' where y': "y = CHR ''/'' # y'" by blast
    with ih have "set (split_sep y') \<subseteq> insert [] (set F)" by auto
    then show ?thesis unfolding eq y' using f
      by (auto simp: split_sep_append split_sep_plain)
  qed
qed

lemma within_root_join:
  assumes "\<not> str_includes name ''..''"
  shows "within_root (UPLOAD_PATH d) (path_join [UPLOAD_PATH d, name])"
proof -
  define F where "F = filter keep_seg (split_sep name)"
  define t where "t = (if name \<noteq> [] \<and> last name = CHR ''/'' then ''/'' else [])"
  have pj: "path_join [UPLOAD_PATH d, name] = UPLOAD_PATH d @ slashed F @ t"
    using path_join_UPLOAD_PATH [OF assms] by (simp add: F_def t_def)
  have t: "t = [] \<or> t = ''/''" by (simp add: t_def)
  have Fs: "\<forall>s \<in> set F. CHR ''/'' \<notin> set s"
    using split_sep_no_slash by (auto simp: F_def)
  have nd: "''..'' \<notin> set F" using no_dotdot_segment [OF assms] by (simp add: F_def)
  have "''..'' \<notin> set (split_sep (slashed F @ t))"
    using split_sep_slashed [OF Fs t] nd by auto
  moreover have "slashed F @ t = [] \<or> hd (slashed F @ t) = CHR ''/''"
    using slashed_shape [of F] t by auto
  ultimately show ?thesis unfolding within_root_def pj by (simp add: Let_def)
qed

lemma within_root_self: "within_root root root"
  by (simp add: within_root_def)

section \<open>Facts about the handlers\<close>

lemmas handler_defs =
  post_upload_def get_files_def get_download_def delete_files_def upload_single_def
  res_download_def readdirSync_def unlinkSync_def existsSync_def record_call_def
  console_write_def client_subject_def cn_or_unknown_def cn_text_def fs_lookup_def
  child_name_def storage_filename_def show_int_def Let_def busboy_basename_def
  path_basename_def dotfile_ignored_def containsDotFile_def

lemmas path_defs =
  UPLOAD_PATH_def path_join_def normalize_def normalizeString_def norm_step_def

lemmas example_defs =
  example_env_def example_world_def example_world_dotfile_def alice_def no_certificate_def

lemma example_root: "UPLOAD_PATH ''/srv/octoshare/backend/src'' = ''/srv/octoshare/uploads''"
  by (simp add: path_defs)

lemma example_join_nested:
  "path_join [''/srv/octoshare/uploads'', ''sub/report.txt'']
   = ''/srv/octoshare/uploads/sub/report.txt''"
  by (simp add: path_defs)

lemma example_join_parent:
  "path_join [''/srv/octoshare/uploads'', ''../secret.pem''] = ''/srv/octoshare/secret.pem''"
  by (simp add: path_defs)

lemma example_join_empty: "path_join [''/srv/octoshare/uploads'', []] = ''/srv/octoshare/uploads''"
  by (simp add: path_defs)

lemma example_join_dot: "path_join [''/srv/octoshare/uploads'', ''.''] = ''/srv/octoshare/uploads''"
  by (simp add: path_defs)

lemma example_join_dotfile:
  "path_join [''/srv/octoshare/uploads'', ''.env''] = ''/srv/octoshare/uploads/.env''"
  by (simp add: path_defs)

lemma example_join_sub: "path_join [''/srv/octoshare/uploads'', ''sub''] = ''/srv/octoshare/uploads/sub''"
  by (simp add: path_defs)

lemma example_join_stored:
  "path_join [''/srv/octoshare/uploads'', ''1700000000000-a..b'']
   = ''/srv/octoshare/uploads/1700000000000-a..b''"
  by (simp add: path_defs)

lemma example_stored_name: "storage_filename 1700000000000 ''a..b'' = ''1700000000000-a..b''"
  by (simp add: storage_filename_def show_int_def show_nat_small show_nat_large digit_char_def)

lemma example_get_nested:
  "route Get example_env
     \<lparr>peerCertificate = alice, params_filename = ''sub/report.txt'', secureFile = None\<rparr>
     example_world
   = (\<lparr>status = 200, body = Attachment ''report.txt'' ''quarterly figures''\<rparr>,
      \<lparr>fs = fs example_world,
       console = [ConsoleLog ''[DOWNLOAD] Client alice downloading file: sub/report.txt''],
       calls = [ExistsSync ''/srv/octoshare/uploads/sub/report.txt'',
                SendFile ''/srv/octoshare/uploads/sub/report.txt'']\<rparr>)"
  by (simp add: handler_defs example_defs example_root example_join_nested)

subsection \<open>Guards\<close>

lemma get_download_dotdot:
  "str_includes (params_filename req) ''..'' \<Longrightarrow>
   get_download e req w = (\<lparr>status = 400, body = Send ''Invalid filename provided.''\<rparr>, w)"
  by (simp add: get_download_def)

lemma delete_files_dotdot:
  "str_includes (params_filename req) ''..'' \<Longrightarrow>
   delete_files e req w
   = (\<lparr>status = 400, body = Json (JObject [(''error'', JString ''Invalid filename provided.'')])\<rparr>,
      w)"
  by (simp add: delete_files_def)

lemma get_files_anonymous:
  "client_subject req = None \<Longrightarrow>
   get_files e req w
   = (\<lparr>status = 401,
       body = Send ''Unauthorized. mTLS client identity required to list files.''\<rparr>, w)"
  by (simp add: get_files_def)

text \<open>
  The upload route stores the file before the handler looks at the certificate: a request
  without a client subject is answered 401, and the file is on disk.
\<close>

lemma post_upload_anonymous_stores:
  assumes "client_subject req = None" and "secureFile req = Some (sent_name, bytes)"
    and "busboy_basename sent_name \<noteq> []"
    and "p = path_join [UPLOAD_PATH (dirname e),
                 storage_filename (now e) (busboy_basename sent_name)]"
    and "p \<notin> set (write_denied e)"
  shows "fst (post_upload e req w)
           = \<lparr>status = 401, body = Send ''Unauthorized access (mTLS handshake failed).''\<rparr>"
    and "map_of (fs (snd (post_upload e req w))) p = Some (File bytes)"
    and "calls (snd (post_upload e req w)) = calls w @ [WriteFile p]"
  using assms
  by (simp_all add: post_upload_def upload_single_def record_call_def Let_def update_conv')

text \<open>
  The name of a successful upload is composed from the clock and the reduced file name; it
  contains no separator.
\<close>

lemma post_upload_stored_name:
  assumes "status (fst (post_upload e req w)) = 200"
  shows "\<exists>sent_name bytes cn.
           secureFile req = Some (sent_name, bytes)
         \<and> body (fst (post_upload e req w))
             = Json (JObject
                 [(''message'', JString ''File uploaded securely!''),
                  (''filename'',
                   JString (storage_filename (now e) (busboy_basename sent_name))),
                  (''clientCN'', JString cn)])
         \<and> CHR ''/'' \<notin> set (storage_filename (now e) (busboy_basename sent_name))
         \<and> CHR 0x5C \<notin> set (storage_filename (now e) (busboy_basename sent_name))"
proof -
  have sep: "CHR ''/'' \<notin> set (storage_filename t (busboy_basename n))
      \<and> CHR 0x5C \<notin> set (storage_filename t (busboy_basename n))" for t n
    using show_int_chars [of "CHR ''/''" t] show_int_no_backslash [of t]
      busboy_basename_chars [of _ n]
    by (auto simp: storage_filename_def)
  from assms show ?thesis
    using sep
    by (auto simp: post_upload_def upload_single_def Let_def
        split: option.splits if_splits prod.splits)
qed

subsection \<open>Responses, calls and console lines\<close>

lemma get_download_clean:
  assumes "\<not> str_includes (params_filename req) ''..''"
    and "p = path_join [UPLOAD_PATH (dirname e), params_filename req]"
  shows "fst (get_download e req w)
         = (case client_subject req of
              None \<Rightarrow> \<lparr>status = 401, body = Send ''Unauthorized. mTLS client identity required.''\<rparr>
            | Some s \<Rightarrow>
               (case fs_lookup (fs w) p of
                  None \<Rightarrow> \<lparr>status = 404, body = Send ''File not found.''\<rparr>
                | Some Dir \<Rightarrow> \<lparr>status = 500, body = Send ''Could not complete the download.''\<rparr>
                | Some (File c) \<Rightarrow>
                    if dotfile_ignored p then
                      \<lparr>status = 500, body = Send ''Could not complete the download.''\<rparr>
                    else
                      (case map_of (send_faults e) p of
                         None \<Rightarrow>
                           \<lparr>status = 200,
                            body = Attachment
                              (path_basename
                                 (if params_filename req = [] then p else params_filename req)) c\<rparr>
                       | Some BeforeHeaders \<Rightarrow>
                           \<lparr>status = 500, body = Send ''Could not complete the download.''\<rparr>
                       | Some AfterHeaders \<Rightarrow>
                           \<lparr>status = 200,
                            body = TruncatedAttachment
                              (path_basename
                                 (if params_filename req = [] then p
                                  else params_filename req))\<rparr>)))"
  using assms
  by (auto simp: get_download_def existsSync_def res_download_def record_call_def
      console_write_def Let_def
      split: option.splits node.splits send_fault.splits)

lemma delete_files_clean:
  assumes "\<not> str_includes (params_filename req) ''..''"
    and "p = path_join [UPLOAD_PATH (dirname e), params_filename req]"
  shows "fst (delete_files e req w)
         = (case client_subject req of
              None \<Rightarrow>
                \<lparr>status = 401,
                 body = Send ''Unauthorized. mTLS client identity required for deletion.''\<rparr>
            | Some s \<Rightarrow>
               (case fs_lookup (fs w) p of
                  Some (File c) \<Rightarrow>
                    if p \<in> set (unlink_denied e) then
                      \<lparr>status = 500,
                       body = Json (JObject
                         [(''error'',
                           JString ''Failed to delete file from disk. Check server permissions.'')])\<rparr>
                    else
                      \<lparr>status = 200,
                       body = Json (JObject
                         [(''message'',
                           JString (''File '' @ params_filename req @ '' deleted successfully.''))])\<rparr>
                | Some Dir \<Rightarrow>
                    \<lparr>status = 500,
                     body = Json (JObject
                       [(''error'',
                         JString ''Failed to delete file from disk. Check server permissions.'')])\<rparr>
                | None \<Rightarrow>
                    \<lparr>status = 404, body = Json (JObject [(''error'', JString ''File not found.'')])\<rparr>))"
  using assms
  by (auto simp: delete_files_def existsSync_def unlinkSync_def record_call_def
      console_write_def Let_def
      split: option.splits node.splits)

lemma get_files_calls:
  "calls (snd (get_files e req w)) = calls w \<or>
   calls (snd (get_files e req w)) = calls w @ [ReaddirSync (UPLOAD_PATH (dirname e))]"
  by (auto simp: get_files_def readdirSync_def record_call_def console_write_def Let_def
      split: option.splits)

lemma get_download_calls:
  assumes "\<not> str_includes (params_filename req) ''..''"
    and "p = path_join [UPLOAD_PATH (dirname e), params_filename req]"
  shows "calls (snd (get_download e req w))
         = calls w @ (case client_subject req of None \<Rightarrow> []
                      | Some s \<Rightarrow> if fs_lookup (fs w) p = None then [ExistsSync p]
                                  else [ExistsSync p, SendFile p])"
  using assms
  by (auto simp: get_download_def existsSync_def res_download_def record_call_def
      console_write_def Let_def
      split: option.splits node.splits send_fault.splits)

lemma delete_files_calls:
  assumes "\<not> str_includes (params_filename req) ''..''"
    and "p = path_join [UPLOAD_PATH (dirname e), params_filename req]"
  shows "calls (snd (delete_files e req w))
         = calls w @ (case client_subject req of None \<Rightarrow> []
                      | Some s \<Rightarrow> if fs_lookup (fs w) p = None then [ExistsSync p]
                                  else [ExistsSync p, UnlinkSync p])"
  using assms
  by (auto simp: delete_files_def existsSync_def unlinkSync_def record_call_def
      console_write_def Let_def
      split: option.splits node.splits)

lemma new_calls_append: "calls w' = calls w @ xs \<Longrightarrow> new_calls w w' = xs"
  by (simp add: new_calls_def)

lemma new_calls_same: "new_calls w w = []"
  by (simp add: new_calls_def)

lemma new_console_append: "console w' = console w @ xs \<Longrightarrow> new_console w w' = xs"
  by (simp add: new_console_def)

lemma get_download_lines:
  assumes "\<not> str_includes (params_filename req) ''..''"
    and "p = path_join [UPLOAD_PATH (dirname e), params_filename req]"
  shows "console (snd (get_download e req w))
         = console w @ (case client_subject req of None \<Rightarrow> []
             | Some s \<Rightarrow>
                 if fs_lookup (fs w) p = None then []
                 else [ConsoleLog (''[DOWNLOAD] Client '' @ cn_text s
                         @ '' downloading file: '' @ params_filename req)])"
  using assms
  by (auto simp: get_download_def existsSync_def res_download_def record_call_def
      console_write_def Let_def
      split: option.splits node.splits send_fault.splits)

lemma delete_files_lines:
  assumes "\<not> str_includes (params_filename req) ''..''"
    and "p = path_join [UPLOAD_PATH (dirname e), params_filename req]"
  shows "console (snd (delete_files e req w))
         = console w @ (case client_subject req of None \<Rightarrow> []
             | Some s \<Rightarrow>
                 (case fs_lookup (fs w) p of
                    None \<Rightarrow> []
                  | Some Dir \<Rightarrow> [ConsoleError ''Error deleting file:'']
                  | Some (File c) \<Rightarrow>
                      if p \<in> set (unlink_denied e) then [ConsoleError ''Error deleting file:'']
                      else [ConsoleLog (''[DELETE] Client '' @ cn_text s
                              @ '' deleted file: '' @ params_filename req)]))"
  using assms
  by (auto simp: delete_files_def existsSync_def unlinkSync_def record_call_def
      console_write_def Let_def
      split: option.splits node.splits)

lemma post_upload_console:
  "\<exists>xs. console (snd (post_upload e req w)) = console w @ xs
        \<and> audit_shape Put (status (fst (post_upload e req w))) xs"
  by (auto simp: post_upload_def upload_single_def record_call_def console_write_def Let_def
      audit_shape_def op_tag_def split: option.splits)

lemma get_files_console:
  "\<exists>xs. console (snd (get_files e req w)) = console w @ xs
        \<and> audit_shape List (status (fst (get_files e req w))) xs"
  by (auto simp: get_files_def readdirSync_def record_call_def console_write_def Let_def
      audit_shape_def op_tag_def split: option.splits)

lemma get_download_console:
  "\<exists>xs. console (snd (get_download e req w)) = console w @ xs
        \<and> audit_shape Get (status (fst (get_download e req w))) xs"
proof (cases "str_includes (params_filename req) ''..''")
  case True
  then show ?thesis by (simp add: get_download_dotdot audit_shape_def)
next
  case False
  define p where "p = path_join [UPLOAD_PATH (dirname e), params_filename req]"
  show ?thesis
    unfolding get_download_lines [OF False p_def] get_download_clean [OF False p_def]
    by (auto simp: audit_shape_def op_tag_def
        split: option.splits node.splits send_fault.splits)
qed

lemma delete_files_console:
  "\<exists>xs. console (snd (delete_files e req w)) = console w @ xs
        \<and> audit_shape Delete (status (fst (delete_files e req w))) xs"
proof (cases "str_includes (params_filename req) ''..''")
  case True
  then show ?thesis by (simp add: delete_files_dotdot audit_shape_def)
next
  case False
  define p where "p = path_join [UPLOAD_PATH (dirname e), params_filename req]"
  show ?thesis
    unfolding delete_files_lines [OF False p_def] delete_files_clean [OF False p_def]
    by (auto simp: audit_shape_def op_tag_def split: option.splits node.splits)
qed

section \<open>The claims\<close>

subsection \<open>C1: the stored name of an upload\<close>

text \<open>
  C1 says that the stored name of every successful Put contains no path separator and no
  two-dot sequence, the server composing the name itself. The server does compose it, and
  the separator half holds (\<open>post_upload_stored_name\<close>). The two-dot half does not: the
  upload of a file named \<^verbatim>\<open>a..b\<close> succeeds and is stored as \<^verbatim>\<open>1700000000000-a..b\<close>. The
  download and delete handlers refuse every name that contains the two-dot sequence
  (lines 108 and 133), so the file just stored can be neither fetched nor removed.
\<close>

theorem upload_composes_unreachable_name:
  "fst (route Put example_env
      \<lparr>peerCertificate = alice, params_filename = [], secureFile = Some (''a..b'', ''data'')\<rparr>
      example_world)
     = \<lparr>status = 200,
        body = Json (JObject
          [(''message'', JString ''File uploaded securely!''),
           (''filename'', JString ''1700000000000-a..b''),
           (''clientCN'', JString ''alice'')])\<rparr>
   \<and> map_of (fs (snd (route Put example_env
        \<lparr>peerCertificate = alice, params_filename = [], secureFile = Some (''a..b'', ''data'')\<rparr>
        example_world))) ''/srv/octoshare/uploads/1700000000000-a..b''
       = Some (File ''data'')
   \<and> str_includes ''1700000000000-a..b'' ''..''
   \<and> fst (route Get example_env
        \<lparr>peerCertificate = alice, params_filename = ''1700000000000-a..b'', secureFile = None\<rparr>
        (snd (route Put example_env
          \<lparr>peerCertificate = alice, params_filename = [],
           secureFile = Some (''a..b'', ''data'')\<rparr> example_world)))
       = \<lparr>status = 400, body = Send ''Invalid filename provided.''\<rparr>
   \<and> fst (route Delete example_env
        \<lparr>peerCertificate = alice, params_filename = ''1700000000000-a..b'', secureFile = None\<rparr>
        (snd (route Put example_env
          \<lparr>peerCertificate = alice, params_filename = [],
           secureFile = Some (''a..b'', ''data'')\<rparr> example_world)))
       = \<lparr>status = 400,
          body = Json (JObject [(''error'', JString ''Invalid filename provided.'')])\<rparr>"
  by (simp add: post_upload_def upload_single_def Let_def example_env_def example_world_def
      alice_def client_subject_def cn_or_unknown_def example_stored_name busboy_basename_def
      example_root example_join_stored record_call_def console_write_def
      get_download_def delete_files_def)

subsection \<open>C2: requests without a peer identity\<close>

text \<open>
  C2 as stated fails. The download and delete handlers check the name before the
  certificate: a request without a client subject whose name contains \<^verbatim>\<open>..\<close> is answered
  400 (invalid name), not 401.
\<close>

theorem anonymous_get_counterexample:
  "client_subject
     \<lparr>peerCertificate = no_certificate, params_filename = ''../secret.pem'', secureFile = None\<rparr>
     = None
   \<and> status (fst (route Get example_env
        \<lparr>peerCertificate = no_certificate, params_filename = ''../secret.pem'', secureFile = None\<rparr>
        example_world)) = 400"
  by (simp add: client_subject_def no_certificate_def get_download_def)

text \<open>
  C2, amended. A request without a client subject is answered as follows. List: 401, the
  world unchanged. Get and Delete: 400 when the name contains the two-dot sequence and 401
  otherwise, in both cases with the world unchanged (no file-system call, no console
  line). Put: 400 when the request carries no file (none, or one whose name the upload
  parser reduces to the empty name); otherwise 401, or 500 when the upload middleware
  failed.
\<close>

theorem anonymous_requests_rejected:
  assumes "client_subject req = None"
  shows "route List e req w
           = (\<lparr>status = 401,
               body = Send ''Unauthorized. mTLS client identity required to list files.''\<rparr>, w)
       \<and> snd (route Get e req w) = w
       \<and> status (fst (route Get e req w))
           = (if str_includes (params_filename req) ''..'' then 400 else 401)
       \<and> snd (route Delete e req w) = w
       \<and> status (fst (route Delete e req w))
           = (if str_includes (params_filename req) ''..'' then 400 else 401)
       \<and> status (fst (route Put e req w))
           = (case secureFile req of
                None \<Rightarrow> 400
              | Some (sent_name, bytes) \<Rightarrow>
                  if busboy_basename sent_name = [] then 400
                  else if path_join [UPLOAD_PATH (dirname e),
                            storage_filename (now e) (busboy_basename sent_name)]
                       \<in> set (write_denied e)
                  then 500 else 401)"
proof -
  have "status (fst (post_upload e req w))
           = (case secureFile req of
                None \<Rightarrow> 400
              | Some (sent_name, bytes) \<Rightarrow>
                  if busboy_basename sent_name = [] then 400
                  else if path_join [UPLOAD_PATH (dirname e),
                            storage_filename (now e) (busboy_basename sent_name)]
                       \<in> set (write_denied e)
                  then 500 else 401)"
    using assms by (simp add: post_upload_def upload_single_def Let_def split: option.splits)
  moreover have "snd (get_download e req w) = w"
    "status (fst (get_download e req w))
       = (if str_includes (params_filename req) ''..'' then 400 else 401)"
    using assms by (simp_all add: get_download_def Let_def)
  moreover have "snd (delete_files e req w) = w"
    "status (fst (delete_files e req w))
       = (if str_includes (params_filename req) ''..'' then 400 else 401)"
    using assms by (simp_all add: delete_files_def Let_def)
  ultimately show ?thesis using get_files_anonymous [OF assms] by simp
qed

theorem anonymous_requests_rejected_witness:
  "client_subject
     \<lparr>peerCertificate = no_certificate, params_filename = ''sub/report.txt'',
      secureFile = Some (''report.txt'', ''0123456789'')\<rparr> = None
   \<and> route List example_env
        \<lparr>peerCertificate = no_certificate, params_filename = ''sub/report.txt'',
         secureFile = Some (''report.txt'', ''0123456789'')\<rparr> example_world
       = (\<lparr>status = 401,
           body = Send ''Unauthorized. mTLS client identity required to list files.''\<rparr>,
          example_world)
   \<and> route Get example_env
        \<lparr>peerCertificate = no_certificate, params_filename = ''sub/report.txt'',
         secureFile = Some (''report.txt'', ''0123456789'')\<rparr> example_world
       = (\<lparr>status = 401, body = Send ''Unauthorized. mTLS client identity required.''\<rparr>,
          example_world)
   \<and> status (fst (route Delete example_env
        \<lparr>peerCertificate = no_certificate, params_filename = ''sub/report.txt'',
         secureFile = Some (''report.txt'', ''0123456789'')\<rparr> example_world)) = 401
   \<and> status (fst (route Put example_env
        \<lparr>peerCertificate = no_certificate, params_filename = ''sub/report.txt'',
         secureFile = Some (''report.txt'', ''0123456789'')\<rparr> example_world)) = 401"
proof -
  have h: "client_subject
     \<lparr>peerCertificate = no_certificate, params_filename = ''sub/report.txt'',
      secureFile = Some (''report.txt'', ''0123456789'')\<rparr> = None"
    by (simp add: client_subject_def no_certificate_def)
  show ?thesis
    using h anonymous_requests_rejected [OF h, of example_env example_world]
    by (simp add: get_download_def Let_def example_env_def busboy_basename_def)
qed

subsection \<open>C3: traversal names\<close>

text \<open>
  C3. For every target name that contains the two-dot token and every request (whatever
  its peer certificate), Get and Delete answer 400 with the invalid-filename message, and
  they do so before any file-system call: the world, and with it the record of calls, is
  returned unchanged.
\<close>

theorem traversal_rejected_before_fs:
  assumes "str_includes (params_filename req) ''..''"
  shows "route Get e req w
           = (\<lparr>status = 400, body = Send ''Invalid filename provided.''\<rparr>, w)
       \<and> route Delete e req w
           = (\<lparr>status = 400,
               body = Json (JObject [(''error'', JString ''Invalid filename provided.'')])\<rparr>, w)
       \<and> new_calls w (snd (route Get e req w)) = []
       \<and> new_calls w (snd (route Delete e req w)) = []"
  using assms by (simp add: get_download_dotdot delete_files_dotdot new_calls_same)

theorem traversal_rejected_before_fs_witness:
  "str_includes (params_filename
      \<lparr>peerCertificate = alice, params_filename = ''../../etc/passwd'', secureFile = None\<rparr>) ''..''
   \<and> route Get example_env
        \<lparr>peerCertificate = alice, params_filename = ''../../etc/passwd'', secureFile = None\<rparr>
        example_world
       = (\<lparr>status = 400, body = Send ''Invalid filename provided.''\<rparr>, example_world)
   \<and> route Delete example_env
        \<lparr>peerCertificate = no_certificate, params_filename = ''a/../../b'', secureFile = None\<rparr>
        example_world
       = (\<lparr>status = 400,
           body = Json (JObject [(''error'', JString ''Invalid filename provided.'')])\<rparr>,
          example_world)"
proof -
  have h1: "str_includes (params_filename
      \<lparr>peerCertificate = alice, params_filename = ''../../etc/passwd'', secureFile = None\<rparr>) ''..''"
    by simp
  have h2: "str_includes (params_filename
      \<lparr>peerCertificate = no_certificate, params_filename = ''a/../../b'', secureFile = None\<rparr>) ''..''"
    by simp
  show ?thesis
    using h1 traversal_rejected_before_fs [OF h1, of example_env example_world]
      traversal_rejected_before_fs [OF h2, of example_env example_world]
    by simp
qed

subsection \<open>C4: accesses stay inside the root\<close>

text \<open>
  C4. For every caller-supplied name, every path that List, Get or Delete hands to the
  file system (to read a directory, probe, stream or remove) is inside the store's root:
  the root itself, as for List, or a path below it. Paths are compared as strings after
  \<^verbatim>\<open>path.join\<close>'s normalisation; the server resolves no symbolic links.
\<close>

theorem accesses_stay_inside_root:
  assumes "op \<noteq> Put"
  shows "calls (snd (route op e req w)) = calls w @ new_calls w (snd (route op e req w))
       \<and> list_all (\<lambda>c. within_root (UPLOAD_PATH (dirname e)) (call_path c))
            (new_calls w (snd (route op e req w)))"
proof (cases op)
  case Put
  with assms show ?thesis by simp
next
  case List
  from get_files_calls [of e req w] show ?thesis
  proof
    assume "calls (snd (get_files e req w)) = calls w"
    then show ?thesis using List by (simp add: new_calls_def)
  next
    assume c: "calls (snd (get_files e req w)) = calls w @ [ReaddirSync (UPLOAD_PATH (dirname e))]"
    then show ?thesis using List new_calls_append [OF c] by (simp add: within_root_self)
  qed
next
  case Get
  show ?thesis
  proof (cases "str_includes (params_filename req) ''..''")
    case True
    then show ?thesis using Get by (simp add: get_download_dotdot new_calls_same)
  next
    case False
    define p where "p = path_join [UPLOAD_PATH (dirname e), params_filename req]"
    define xs where "xs = (case client_subject req of None \<Rightarrow> []
         | Some s \<Rightarrow> if fs_lookup (fs w) p = None then [ExistsSync p]
                     else [ExistsSync p, SendFile p])"
    have c: "calls (snd (get_download e req w)) = calls w @ xs"
      using get_download_calls [OF False p_def] by (simp add: xs_def)
    have "within_root (UPLOAD_PATH (dirname e)) p"
      unfolding p_def by (rule within_root_join [OF False])
    then have "list_all (\<lambda>c. within_root (UPLOAD_PATH (dirname e)) (call_path c)) xs"
      by (simp add: xs_def split: option.splits)
    then show ?thesis using Get c new_calls_append [OF c] by simp
  qed
next
  case Delete
  show ?thesis
  proof (cases "str_includes (params_filename req) ''..''")
    case True
    then show ?thesis using Delete by (simp add: delete_files_dotdot new_calls_same)
  next
    case False
    define p where "p = path_join [UPLOAD_PATH (dirname e), params_filename req]"
    define xs where "xs = (case client_subject req of None \<Rightarrow> []
         | Some s \<Rightarrow> if fs_lookup (fs w) p = None then [ExistsSync p]
                     else [ExistsSync p, UnlinkSync p])"
    have c: "calls (snd (delete_files e req w)) = calls w @ xs"
      using delete_files_calls [OF False p_def] by (simp add: xs_def)
    have "within_root (UPLOAD_PATH (dirname e)) p"
      unfolding p_def by (rule within_root_join [OF False])
    then have "list_all (\<lambda>c. within_root (UPLOAD_PATH (dirname e)) (call_path c)) xs"
      by (simp add: xs_def split: option.splits)
    then show ?thesis using Delete c new_calls_append [OF c] by simp
  qed
qed

theorem accesses_stay_inside_root_witness:
  "Get \<noteq> Put
   \<and> new_calls example_world (snd (route Get example_env
        \<lparr>peerCertificate = alice, params_filename = ''sub/report.txt'', secureFile = None\<rparr>
        example_world))
       = [ExistsSync ''/srv/octoshare/uploads/sub/report.txt'',
          SendFile ''/srv/octoshare/uploads/sub/report.txt'']
   \<and> list_all (\<lambda>c. within_root (UPLOAD_PATH (dirname example_env)) (call_path c))
        [ExistsSync ''/srv/octoshare/uploads/sub/report.txt'',
         SendFile ''/srv/octoshare/uploads/sub/report.txt'']"
proof -
  have h: "Get \<noteq> Put" by simp
  have n: "new_calls example_world (snd (route Get example_env
        \<lparr>peerCertificate = alice, params_filename = ''sub/report.txt'', secureFile = None\<rparr>
        example_world))
       = [ExistsSync ''/srv/octoshare/uploads/sub/report.txt'',
          SendFile ''/srv/octoshare/uploads/sub/report.txt'']"
    unfolding example_get_nested by (simp add: new_calls_def example_world_def)
  show ?thesis
    using h n accesses_stay_inside_root [OF h, of example_env
        "\<lparr>peerCertificate = alice, params_filename = ''sub/report.txt'', secureFile = None\<rparr>"
        example_world]
    by simp
qed

subsection \<open>C5: console records\<close>

text \<open>
  C5 as stated fails. A download request rejected for its name is answered 400 and leaves
  no line on the console: rejected requests are not logged.
\<close>

theorem rejected_request_counterexample:
  "fst (route Get example_env
      \<lparr>peerCertificate = alice, params_filename = ''../secret.pem'', secureFile = None\<rparr>
      example_world)
     = \<lparr>status = 400, body = Send ''Invalid filename provided.''\<rparr>
   \<and> new_console example_world (snd (route Get example_env
        \<lparr>peerCertificate = alice, params_filename = ''../secret.pem'', secureFile = None\<rparr>
        example_world)) = []"
  by (simp add: get_download_def new_console_def)

text \<open>
  C5, amended. Every request extends the console by zero or one line, according to its
  outcome: a request answered 200 writes exactly one \<^verbatim>\<open>console.log\<close> line that starts with
  the tag of its operation (\<^verbatim>\<open>[UPLOAD]\<close>, \<^verbatim>\<open>[LIST]\<close>, \<^verbatim>\<open>[DOWNLOAD]\<close>, \<^verbatim>\<open>[DELETE]\<close>); a
  request answered 500 writes exactly one line; a request answered 400, 401 or 404 writes
  none; and no other status code occurs.
\<close>

theorem console_records:
  "console (snd (route op e req w))
     = console w @ new_console w (snd (route op e req w))
   \<and> audit_shape op (status (fst (route op e req w)))
        (new_console w (snd (route op e req w)))"
proof -
  have "\<exists>xs. console (snd (route op e req w)) = console w @ xs
        \<and> audit_shape op (status (fst (route op e req w))) xs"
    using post_upload_console get_files_console get_download_console delete_files_console
    by (cases op) simp_all
  then obtain xs where xs: "console (snd (route op e req w)) = console w @ xs"
    and sh: "audit_shape op (status (fst (route op e req w))) xs" by blast
  from new_console_append [OF xs] xs sh show ?thesis by simp
qed

subsection \<open>C6: distinct uploads get distinct names\<close>

text \<open>
  C6. The name generator is injective on (timestamp, original name) pairs: a sequence of
  uploads whose (epoch-millis timestamp, originalName) pairs are pairwise distinct is given
  pairwise distinct stored names \<open><millis>-<originalName>\<close>.
\<close>

theorem storage_filename_distinct:
  "distinct ps \<Longrightarrow> distinct (map (\<lambda>(t, n). storage_filename t n) ps)"
proof -
  assume d: "distinct ps"
  have "inj_on (\<lambda>(t, n). storage_filename t n) (set ps)"
    by (rule inj_onI) (auto dest: storage_filename_inj)
  with d show ?thesis by (simp add: distinct_map)
qed

theorem storage_filename_distinct_witness:
  "distinct [(1700000000000 :: int, ''report.txt''), (1700000000000, ''notes.txt''),
             (1700000000001, ''report.txt'')]
   \<and> distinct (map (\<lambda>(t, n). storage_filename t n)
        [(1700000000000, ''report.txt''), (1700000000000, ''notes.txt''),
         (1700000000001, ''report.txt'')])"
  using storage_filename_distinct
    [of "[(1700000000000 :: int, ''report.txt''), (1700000000000, ''notes.txt''),
          (1700000000001, ''report.txt'')]"]
  by simp

subsection \<open>C7: the name taken from the certificate\<close>

text \<open>
  C7 says that for every operation the identity is absent exactly when there is no
  certificate or no subject, and that otherwise its common name is the subject's \<^verbatim>\<open>CN\<close>, or
  \<^verbatim>\<open>Unknown Client\<close> when the \<^verbatim>\<open>CN\<close> is empty. All four handlers decide presence that way,
  but only the upload handler has the fallback. At a certificate whose subject has no
  \<^verbatim>\<open>CN\<close> the upload handler names the client \<^verbatim>\<open>Unknown Client\<close>, while the list, download
  and delete handlers name it \<^verbatim>\<open>undefined\<close>.
\<close>

theorem missing_cn_logged_as_undefined:
  "client_subject
     \<lparr>peerCertificate = Some \<lparr>subject = Some \<lparr>CN = None\<rparr>\<rparr>, params_filename = [],
      secureFile = Some (''report.txt'', ''0123456789'')\<rparr> = Some \<lparr>CN = None\<rparr>
   \<and> new_console example_world (snd (route Put example_env
        \<lparr>peerCertificate = Some \<lparr>subject = Some \<lparr>CN = None\<rparr>\<rparr>, params_filename = [],
         secureFile = Some (''report.txt'', ''0123456789'')\<rparr> example_world))
       = [ConsoleLog ''[UPLOAD] File uploaded by secure client. CN: Unknown Client'']
   \<and> new_console example_world (snd (route List example_env
        \<lparr>peerCertificate = Some \<lparr>subject = Some \<lparr>CN = None\<rparr>\<rparr>, params_filename = [],
         secureFile = None\<rparr> example_world))
       = [ConsoleLog ''[LIST] Client undefined listed 1 files.'']
   \<and> new_console example_world (snd (route Get example_env
        \<lparr>peerCertificate = Some \<lparr>subject = Some \<lparr>CN = None\<rparr>\<rparr>,
         params_filename = ''sub/report.txt'', secureFile = None\<rparr> example_world))
       = [ConsoleLog ''[DOWNLOAD] Client undefined downloading file: sub/report.txt'']
   \<and> new_console example_world (snd (route Delete example_env
        \<lparr>peerCertificate = Some \<lparr>subject = Some \<lparr>CN = None\<rparr>\<rparr>,
         params_filename = ''sub/report.txt'', secureFile = None\<rparr> example_world))
       = [ConsoleLog ''[DELETE] Client undefined deleted file: sub/report.txt'']"
  by (simp add: handler_defs example_defs example_root example_join_nested new_console_def
      show_nat_small digit_char_def List.map_filter_def)

subsection \<open>C8: download of a missing file\<close>

text \<open>
  C8 as stated fails, in both halves. \<^verbatim>\<open>sub\<close> passes the name check and names a directory
  of the store: no regular file exists at that path, yet the answer is 500, not 404,
  because the handler asks whether the path exists, not whether it is a regular file.
  And \<^verbatim>\<open>.env\<close> names a regular file of the store that is not streamed: \<^verbatim>\<open>res.download\<close>
  refuses a dot file and the answer is 500.
\<close>

theorem directory_counterexample:
  "client_subject \<lparr>peerCertificate = alice, params_filename = ''sub'', secureFile = None\<rparr>
     = Some \<lparr>CN = Some ''alice''\<rparr>
   \<and> \<not> str_includes ''sub'' ''..''
   \<and> fs_lookup (fs example_world) (path_join [UPLOAD_PATH (dirname example_env), ''sub''])
       = Some Dir
   \<and> fst (route Get example_env
        \<lparr>peerCertificate = alice, params_filename = ''sub'', secureFile = None\<rparr> example_world)
       = \<lparr>status = 500, body = Send ''Could not complete the download.''\<rparr>
   \<and> \<not> str_includes ''.env'' ''..''
   \<and> fs_lookup (fs example_world_dotfile)
        (path_join [UPLOAD_PATH (dirname example_env), ''.env''])
       = Some (File ''SECRET=1'')
   \<and> fst (route Get example_env
        \<lparr>peerCertificate = alice, params_filename = ''.env'', secureFile = None\<rparr>
        example_world_dotfile)
       = \<lparr>status = 500, body = Send ''Could not complete the download.''\<rparr>"
  by (simp add: handler_defs example_defs example_root example_join_sub example_join_dotfile)

text \<open>
  C8, amended. For every request with a client subject and every name without the two-dot
  sequence, Get answers 404 if and only if nothing (neither a file nor a directory) exists
  at the joined path. When a regular file exists there, Get hands it to \<^verbatim>\<open>res.download\<close>,
  which streams its contents unless it refuses the file (a dot file) or the transfer
  fails. A refused file, a transfer that fails before the headers are sent, and a
  directory at that path are answered 500.
\<close>

theorem download_not_found_iff:
  assumes "client_subject req \<noteq> None" and "\<not> str_includes (params_filename req) ''..''"
    and "p = path_join [UPLOAD_PATH (dirname e), params_filename req]"
  shows "(status (fst (route Get e req w)) = 404 \<longleftrightarrow> fs_lookup (fs w) p = None)
       \<and> fst (route Get e req w)
           = (case fs_lookup (fs w) p of
                None \<Rightarrow> \<lparr>status = 404, body = Send ''File not found.''\<rparr>
              | Some Dir \<Rightarrow> \<lparr>status = 500, body = Send ''Could not complete the download.''\<rparr>
              | Some (File c) \<Rightarrow>
                  if dotfile_ignored p then
                    \<lparr>status = 500, body = Send ''Could not complete the download.''\<rparr>
                  else
                    (case map_of (send_faults e) p of
                       None \<Rightarrow>
                         \<lparr>status = 200,
                          body = Attachment
                            (path_basename
                               (if params_filename req = [] then p else params_filename req)) c\<rparr>
                     | Some BeforeHeaders \<Rightarrow>
                         \<lparr>status = 500, body = Send ''Could not complete the download.''\<rparr>
                     | Some AfterHeaders \<Rightarrow>
                         \<lparr>status = 200,
                          body = TruncatedAttachment
                            (path_basename
                               (if params_filename req = [] then p
                                else params_filename req))\<rparr>))"
  using assms(1) get_download_clean [OF assms(2,3), of w]
  by (auto split: option.splits node.splits send_fault.splits)

theorem download_not_found_iff_witness:
  "client_subject
     \<lparr>peerCertificate = alice, params_filename = ''sub/report.txt'', secureFile = None\<rparr> \<noteq> None
   \<and> \<not> str_includes (params_filename
        \<lparr>peerCertificate = alice, params_filename = ''sub/report.txt'', secureFile = None\<rparr>) ''..''
   \<and> ''/srv/octoshare/uploads/sub/report.txt''
       = path_join [UPLOAD_PATH (dirname example_env),
           params_filename
             \<lparr>peerCertificate = alice, params_filename = ''sub/report.txt'', secureFile = None\<rparr>]
   \<and> fs_lookup (fs example_world) ''/srv/octoshare/uploads/sub/report.txt''
       = Some (File ''quarterly figures'')
   \<and> \<not> dotfile_ignored ''/srv/octoshare/uploads/sub/report.txt''
   \<and> fst (route Get example_env
        \<lparr>peerCertificate = alice, params_filename = ''sub/report.txt'', secureFile = None\<rparr>
        example_world)
       = \<lparr>status = 200, body = Attachment ''report.txt'' ''quarterly figures''\<rparr>"
proof -
  have h1: "client_subject
     \<lparr>peerCertificate = alice, params_filename = ''sub/report.txt'', secureFile = None\<rparr> \<noteq> None"
    by (simp add: client_subject_def alice_def)
  have h2: "\<not> str_includes (params_filename
        \<lparr>peerCertificate = alice, params_filename = ''sub/report.txt'', secureFile = None\<rparr>) ''..''"
    by simp
  have h3: "''/srv/octoshare/uploads/sub/report.txt''
       = path_join [UPLOAD_PATH (dirname example_env),
           params_filename
             \<lparr>peerCertificate = alice, params_filename = ''sub/report.txt'', secureFile = None\<rparr>]"
    by (simp add: example_env_def example_root example_join_nested)
  have l: "fs_lookup (fs example_world) ''/srv/octoshare/uploads/sub/report.txt''
       = Some (File ''quarterly figures'')"
    by (simp add: fs_lookup_def example_world_def)
  have d: "\<not> dotfile_ignored ''/srv/octoshare/uploads/sub/report.txt''"
    by (simp add: dotfile_ignored_def containsDotFile_def)
  show ?thesis
    using h1 h2 h3 l d download_not_found_iff [OF h1 h2 h3, of example_world]
    by (simp add: example_env_def path_basename_def)
qed

subsection \<open>C9: names rejected as invalid\<close>

text \<open>
  C9 as stated fails for the empty name. A download or delete request with an empty target
  name matches no route, so no handler and no name check runs: the router answers 404, not
  the 400 of an invalid name.
\<close>

theorem empty_name_counterexample:
  "app_handle Get example_env
      \<lparr>peerCertificate = alice, params_filename = [], secureFile = None\<rparr> example_world
     = (\<lparr>status = 404, body = Send ''Cannot GET /download/''\<rparr>, example_world)
   \<and> app_handle Delete example_env
      \<lparr>peerCertificate = alice, params_filename = [], secureFile = None\<rparr> example_world
     = (\<lparr>status = 404, body = Send ''Cannot DELETE /files/''\<rparr>, example_world)"
  by (simp add: app_handle_def unmatched_def)

text \<open>
  C9, amended. For Get and Delete, every name that, joined with the store root, does not
  give a path inside the root (the root itself or a path below it) is rejected with 400
  and the invalid-filename message, the world unchanged. An empty target name is not
  rejected as invalid: it matches no route and is answered 404 by the router, the world
  unchanged.
\<close>

theorem invalid_or_unrouted:
  assumes "params_filename req = []
         \<or> \<not> within_root (UPLOAD_PATH (dirname e))
               (path_join [UPLOAD_PATH (dirname e), params_filename req])"
  shows "app_handle Get e req w
           = (if params_filename req = []
              then \<lparr>status = 404, body = Send ''Cannot GET /download/''\<rparr>
              else \<lparr>status = 400, body = Send ''Invalid filename provided.''\<rparr>, w)
       \<and> app_handle Delete e req w
           = (if params_filename req = []
              then \<lparr>status = 404, body = Send ''Cannot DELETE /files/''\<rparr>
              else \<lparr>status = 400,
                    body = Json (JObject [(''error'', JString ''Invalid filename provided.'')])\<rparr>,
              w)"
proof (cases "params_filename req = []")
  case True
  then show ?thesis by (simp add: app_handle_def unmatched_def)
next
  case False
  with assms have "str_includes (params_filename req) ''..''"
    using within_root_join by blast
  with False show ?thesis
    by (simp add: app_handle_def get_download_dotdot delete_files_dotdot)
qed

theorem invalid_or_unrouted_witness:
  "\<not> within_root (UPLOAD_PATH (dirname example_env))
       (path_join [UPLOAD_PATH (dirname example_env),
          params_filename
            \<lparr>peerCertificate = alice, params_filename = ''../secret.pem'', secureFile = None\<rparr>])
   \<and> app_handle Get example_env
        \<lparr>peerCertificate = alice, params_filename = ''../secret.pem'', secureFile = None\<rparr>
        example_world
       = (\<lparr>status = 400, body = Send ''Invalid filename provided.''\<rparr>, example_world)
   \<and> app_handle Delete example_env
        \<lparr>peerCertificate = alice, params_filename = ''../secret.pem'', secureFile = None\<rparr>
        example_world
       = (\<lparr>status = 400,
           body = Json (JObject [(''error'', JString ''Invalid filename provided.'')])\<rparr>,
          example_world)
   \<and> params_filename \<lparr>peerCertificate = alice, params_filename = [], secureFile = None\<rparr> = []
   \<and> app_handle Delete example_env
        \<lparr>peerCertificate = alice, params_filename = [], secureFile = None\<rparr> example_world
       = (\<lparr>status = 404, body = Send ''Cannot DELETE /files/''\<rparr>, example_world)"
proof -
  have h: "\<not> within_root (UPLOAD_PATH (dirname example_env))
       (path_join [UPLOAD_PATH (dirname example_env),
          params_filename
            \<lparr>peerCertificate = alice, params_filename = ''../secret.pem'', secureFile = None\<rparr>])"
    by (simp add: example_env_def example_root example_join_parent within_root_def)
  have k: "params_filename \<lparr>peerCertificate = alice, params_filename = [], secureFile = None\<rparr>
      = []" by simp
  show ?thesis
    using h k invalid_or_unrouted [OF disjI2 [OF h], of example_world]
      invalid_or_unrouted [OF disjI1 [OF k], of example_env example_world]
    by simp
qed

subsection \<open>C10: names that pass the check\<close>

text \<open>
  C10. For Get and Delete, every name that does not contain the two-dot sequence passes
  the validity check (the answer is never 400), also when it contains path separators;
  with a client subject present, the first file-system call probes
  \<^verbatim>\<open>path.join(UPLOAD_PATH, name)\<close>. Such a path may lie in a subdirectory of the root:
  \<^verbatim>\<open>sub/report.txt\<close> is looked up at \<^verbatim>\<open>/srv/octoshare/uploads/sub/report.txt\<close>.
\<close>

theorem clean_name_passes_check:
  assumes "\<not> str_includes (params_filename req) ''..''"
  shows "status (fst (route Get e req w)) \<noteq> 400
       \<and> status (fst (route Delete e req w)) \<noteq> 400
       \<and> (client_subject req \<noteq> None \<longrightarrow>
            take 1 (new_calls w (snd (route Get e req w)))
              = [ExistsSync (path_join [UPLOAD_PATH (dirname e), params_filename req])]
          \<and> take 1 (new_calls w (snd (route Delete e req w)))
              = [ExistsSync (path_join [UPLOAD_PATH (dirname e), params_filename req])])
       \<and> CHR ''/'' \<in> set ''sub/report.txt''
       \<and> \<not> str_includes ''sub/report.txt'' ''..''
       \<and> path_join [UPLOAD_PATH ''/srv/octoshare/backend/src'', ''sub/report.txt'']
           = ''/srv/octoshare/uploads/sub/report.txt''"
proof -
  define p where "p = path_join [UPLOAD_PATH (dirname e), params_filename req]"
  have g: "status (fst (get_download e req w)) \<noteq> 400"
    unfolding get_download_clean [OF assms p_def]
    by (simp split: option.splits node.splits send_fault.splits)
  have d: "status (fst (delete_files e req w)) \<noteq> 400"
    unfolding delete_files_clean [OF assms p_def]
    by (simp split: option.splits node.splits)
  have gc: "client_subject req \<noteq> None \<Longrightarrow>
      take 1 (new_calls w (snd (get_download e req w))) = [ExistsSync p]"
    using new_calls_append [OF get_download_calls [OF assms p_def, of w]] by auto
  have dc: "client_subject req \<noteq> None \<Longrightarrow>
      take 1 (new_calls w (snd (delete_files e req w))) = [ExistsSync p]"
    using new_calls_append [OF delete_files_calls [OF assms p_def, of w]] by auto
  show ?thesis
    using g d gc dc by (simp add: p_def example_root example_join_nested)
qed

theorem clean_name_passes_check_witness:
  "\<not> str_includes (params_filename
        \<lparr>peerCertificate = alice, params_filename = ''sub/report.txt'', secureFile = None\<rparr>) ''..''
   \<and> client_subject
        \<lparr>peerCertificate = alice, params_filename = ''sub/report.txt'', secureFile = None\<rparr>
       \<noteq> None
   \<and> route Get example_env
        \<lparr>peerCertificate = alice, params_filename = ''sub/report.txt'', secureFile = None\<rparr>
        example_world
       = (\<lparr>status = 200, body = Attachment ''report.txt'' ''quarterly figures''\<rparr>,
          \<lparr>fs = fs example_world,
           console = [ConsoleLog ''[DOWNLOAD] Client alice downloading file: sub/report.txt''],
           calls = [ExistsSync ''/srv/octoshare/uploads/sub/report.txt'',
                    SendFile ''/srv/octoshare/uploads/sub/report.txt'']\<rparr>)
   \<and> take 1 (new_calls example_world (snd (route Delete example_env
        \<lparr>peerCertificate = alice, params_filename = ''sub/report.txt'', secureFile = None\<rparr>
        example_world)))
       = [ExistsSync ''/srv/octoshare/uploads/sub/report.txt'']"
proof -
  have h: "\<not> str_includes (params_filename
        \<lparr>peerCertificate = alice, params_filename = ''sub/report.txt'', secureFile = None\<rparr>) ''..''"
    by simp
  have c: "client_subject
        \<lparr>peerCertificate = alice, params_filename = ''sub/report.txt'', secureFile = None\<rparr>
       \<noteq> None"
    by (simp add: client_subject_def alice_def)
  show ?thesis
    using h c clean_name_passes_check [OF h, of example_env example_world] example_get_nested
    by (simp add: example_env_def example_root example_join_nested)
qed

end
